theory Spec2Isabelle
  imports Complex_Main "HOL-Library.Word" "HOL-Library.Sublist"
begin

unbundle bit_operations_syntax

section \<open>Adaptive renderer (AdaptiveRenderer)\<close>

text \<open>
  The TypeScript string-literal unions of \<^verbatim>\<open>RenderSettings\<close> and of the
  device tier become datatypes, the interfaces become records. A JavaScript
  \<^verbatim>\<open>number\<close> is a real; an optional field is an option.
\<close>

datatype quality = QLow | QMedium | QHigh | QUltra

datatype shadowQuality = ShadowOff | ShadowLow | ShadowHigh

datatype deviceTier = TierLow | TierMid | TierHigh

datatype thermal = Normal | Fair | Serious | Critical

record RenderSettings =
  quality :: quality
  targetFPS :: real
  resolution :: real
  antialiasing :: bool
  particleLimit :: real
  shadowQuality :: shadowQuality
  postProcessing :: bool

record AdaptivePerformanceMetrics =
  fps :: real
  frameTime :: real
  memory :: real
  drawCalls :: real
  triangles :: real
  batteryLevel :: "real option"
  thermal :: "thermal option"

text \<open>The field \<^verbatim>\<open>thresholds\<close> of the class.\<close>

definition fpsTargets_high :: real where "fpsTargets_high = 58"
definition fpsTargets_medium :: real where "fpsTargets_medium = 45"
definition fpsTargets_low :: real where "fpsTargets_low = 30"
definition memoryWarning :: real where "memoryWarning = 150"

text \<open>
  \<^verbatim>\<open>calculateOptimalSettings(metrics, currentSettings)\<close>: the candidate starts as
  a copy of the current settings; each block of the source overwrites some
  fields, in the source's order. \<^verbatim>\<open>metrics.batteryLevel && ...\<close> is false for a
  missing level and for the falsy number 0.
\<close>

definition calculateOptimalSettings ::
  "deviceTier \<Rightarrow> AdaptivePerformanceMetrics \<Rightarrow> RenderSettings \<Rightarrow> RenderSettings" where
  "calculateOptimalSettings tier metrics currentSettings =
    (let s0 = currentSettings;
         s1 = (if fps metrics < fpsTargets_low then
                 s0\<lparr>quality := QLow, resolution := 0.5, antialiasing := False,
                    particleLimit := 50, shadowQuality := ShadowOff, postProcessing := False\<rparr>
               else if fps metrics < fpsTargets_medium then
                 s0\<lparr>quality := QMedium, resolution := 0.7, antialiasing := False,
                    particleLimit := 100, shadowQuality := ShadowLow, postProcessing := False\<rparr>
               else if fps metrics \<ge> fpsTargets_high then
                 (if tier = TierHigh \<and> quality currentSettings \<noteq> QUltra then
                    s0\<lparr>quality := QHigh, resolution := 1.0, antialiasing := True,
                       particleLimit := 300, shadowQuality := ShadowHigh, postProcessing := True\<rparr>
                  else s0)
               else s0);
         s2 = (if memory metrics > memoryWarning * 0.8 then
                 s1\<lparr>particleLimit := min (particleLimit s1) 50, postProcessing := False\<rparr>
               else s1);
         s3 = (case thermal metrics of
                 Some th \<Rightarrow> (if th = Serious \<or> th = Critical then
                              s2\<lparr>quality := QLow, targetFPS := 30\<rparr> else s2)
               | None \<Rightarrow> s2);
         s4 = (case batteryLevel metrics of
                 Some b \<Rightarrow> (if b \<noteq> 0 \<and> b < 20 then
                             s3\<lparr>quality := QLow, targetFPS := 30, postProcessing := False\<rparr> else s3)
               | None \<Rightarrow> s3)
     in s4)"

text \<open>
  The conditions of the thermal and of the battery block, and of the rung
  that steps the quality up.
\<close>

definition thermalHot :: "AdaptivePerformanceMetrics \<Rightarrow> bool" where
  "thermalHot m \<longleftrightarrow>
     (case thermal m of Some th \<Rightarrow> th = Serious \<or> th = Critical | None \<Rightarrow> False)"

definition batteryLow :: "AdaptivePerformanceMetrics \<Rightarrow> bool" where
  "batteryLow m \<longleftrightarrow> (case batteryLevel m of Some b \<Rightarrow> b \<noteq> 0 \<and> b < 20 | None \<Rightarrow> False)"

definition stepsUp :: "deviceTier \<Rightarrow> AdaptivePerformanceMetrics \<Rightarrow> RenderSettings \<Rightarrow> bool" where
  "stepsUp tier m s \<longleftrightarrow> fps m \<ge> 58 \<and> tier = TierHigh \<and> quality s \<noteq> QUltra"

text \<open>
  The controller owns the current settings (\<^verbatim>\<open>currentSettings$\<close>); the calls of
  \<^verbatim>\<open>eventBus.emit\<close> and of the engine are kept as a log, newest last. The
  other fields are the state of the two pipes of \<^verbatim>\<open>setupPerformanceReactions\<close>:
  the device tier, the last sample that \<^verbatim>\<open>combineLatest\<close> holds (none before
  the first), the last candidate that \<^verbatim>\<open>distinctUntilChanged\<close> let through (none
  before the first), and for each \<^verbatim>\<open>throttleTime\<close> the time at which its
  running timer ends (none when no timer runs).
\<close>

datatype rendererEvent =
    ResolutionUpdated real
  | AntialiasingChanged bool
  | ParticlesLimitChanged real
  | ShadowsQualityChanged shadowQuality
  | SettingsChanged RenderSettings RenderSettings
  | EmergencyMode RenderSettings

record controller =
  current :: RenderSettings
  hasGL :: bool
  emitLog :: "rendererEvent list"
  deviceTier :: deviceTier
  lastMetrics :: "AdaptivePerformanceMetrics option"
  lastCandidate :: "RenderSettings option"
  normalThrottle :: "nat option"
  emergencyThrottle :: "nat option"

text \<open>
  The body of \<^verbatim>\<open>applyRenderSettings(settings)\<close>. The comparison of the two
  \<^verbatim>\<open>JSON.stringify\<close> texts is equality of the records: both objects have the
  same seven keys in the same order. The last statement,
  \<^verbatim>\<open>currentSettings$.next(settings)\<close>, replaces the current settings; what its
  subscribers do then is \<open>reactToSettings\<close> below.
\<close>

definition applyRenderSettings :: "RenderSettings \<Rightarrow> controller \<Rightarrow> controller" where
  "applyRenderSettings settings c =
    (let currentSettings = current c in
     if settings = currentSettings then c
     else
       c\<lparr>current := settings,
         emitLog := emitLog c
           @ (if resolution settings \<noteq> resolution currentSettings
              then [ResolutionUpdated (resolution settings)] else [])
           @ (if hasGL c \<and> antialiasing settings \<noteq> antialiasing currentSettings
              then [AntialiasingChanged (antialiasing settings)] else [])
           @ [ParticlesLimitChanged (particleLimit settings),
              ShadowsQualityChanged (shadowQuality settings),
              SettingsChanged currentSettings settings]\<rparr>)"

definition emergencySettings :: RenderSettings where
  "emergencySettings =
    \<lparr>quality = QLow, targetFPS = 30, resolution = 0.5, antialiasing = False,
     particleLimit = 25, shadowQuality = ShadowOff, postProcessing = False\<rparr>"

text \<open>\<^verbatim>\<open>getDefaultSettings()\<close> and \<^verbatim>\<open>getInitialMetrics()\<close>.\<close>

definition getDefaultSettings :: RenderSettings where
  "getDefaultSettings =
    \<lparr>quality = QMedium, targetFPS = 60, resolution = 1.0, antialiasing = False,
     particleLimit = 150, shadowQuality = ShadowLow, postProcessing = False\<rparr>"

definition getInitialMetrics :: AdaptivePerformanceMetrics where
  "getInitialMetrics =
    \<lparr>fps = 60, frameTime = 16.67, memory = 0, drawCalls = 0, triangles = 0,
     batteryLevel = None, thermal = None\<rparr>"

text \<open>
  The first pipe of \<^verbatim>\<open>setupPerformanceReactions\<close>, from \<^verbatim>\<open>combineLatest\<close> on:
  what happens when one of its two sources has emitted, the state holding the
  new value already. The candidate is computed from the last throttled sample
  and the current settings; \<^verbatim>\<open>distinctUntilChanged\<close> drops it when it equals
  the last candidate let through; otherwise the subscriber calls
  \<^verbatim>\<open>applyRenderSettings\<close>, which returns at once for settings equal to the
  current ones and otherwise ends in \<^verbatim>\<open>currentSettings$.next\<close>: the pipe
  runs again, inside the call. The result is \<open>None\<close> if this never ends.
\<close>

partial_function (option) reactToSettings :: "controller \<Rightarrow> controller option" where
  "reactToSettings c =
    (case lastMetrics c of
       None \<Rightarrow> Some c
     | Some metrics \<Rightarrow>
         if lastCandidate c = Some (calculateOptimalSettings (deviceTier c) metrics (current c))
         then Some c
         else if calculateOptimalSettings (deviceTier c) metrics (current c) = current c
         then Some (c\<lparr>lastCandidate :=
                 Some (calculateOptimalSettings (deviceTier c) metrics (current c))\<rparr>)
         else reactToSettings
                (applyRenderSettings (calculateOptimalSettings (deviceTier c) metrics (current c))
                   (c\<lparr>lastCandidate :=
                       Some (calculateOptimalSettings (deviceTier c) metrics (current c))\<rparr>)))"

text \<open>
  A call of \<^verbatim>\<open>applyRenderSettings(settings)\<close> with all it sets off: nothing for
  settings equal to the current ones, otherwise the body and then the
  subscribers of \<^verbatim>\<open>currentSettings$\<close>.
\<close>

definition applyRenderSettings_notified :: "RenderSettings \<Rightarrow> controller \<Rightarrow> controller option" where
  "applyRenderSettings_notified settings c =
    (if settings = current c then Some c
     else reactToSettings (applyRenderSettings settings c))"

text \<open>
  \<^verbatim>\<open>emergencyQualityReduction()\<close>: the call of \<^verbatim>\<open>applyRenderSettings\<close> with the
  emergency settings, then the emission of \<^verbatim>\<open>renderer:emergencyMode\<close>.
\<close>

definition emergencyQualityReduction :: "controller \<Rightarrow> controller option" where
  "emergencyQualityReduction c =
    map_option (\<lambda>c'. c'\<lparr>emitLog := emitLog c' @ [EmergencyMode emergencySettings]\<rparr>)
      (applyRenderSettings_notified emergencySettings c)"

text \<open>
  \<^verbatim>\<open>adjustQualityBasedOnDevice()\<close>: the settings a tier starts with.
\<close>

definition initialSettings :: "deviceTier \<Rightarrow> RenderSettings" where
  "initialSettings tier =
    (case tier of
       TierHigh \<Rightarrow>
         \<lparr>quality = QHigh, targetFPS = 60, resolution = 1.0, antialiasing = True,
          particleLimit = 300, shadowQuality = ShadowHigh, postProcessing = True\<rparr>
     | TierMid \<Rightarrow>
         \<lparr>quality = QMedium, targetFPS = 60, resolution = 0.8, antialiasing = False,
          particleLimit = 150, shadowQuality = ShadowLow, postProcessing = False\<rparr>
     | TierLow \<Rightarrow>
         \<lparr>quality = QLow, targetFPS = 30, resolution = 0.6, antialiasing = False,
          particleLimit = 50, shadowQuality = ShadowOff, postProcessing = False\<rparr>)"

text \<open>
  A sample as \<^verbatim>\<open>monitorPerformance\<close> publishes it: thermal state
  \<^verbatim>\<open>'normal'\<close>, no battery level.
\<close>

definition sample :: "real \<Rightarrow> real \<Rightarrow> AdaptivePerformanceMetrics" where
  "sample f mem =
    \<lparr>fps = f, frameTime = 1000 / f, memory = mem, drawCalls = 0, triangles = 0,
     batteryLevel = None, thermal = Some Normal\<rparr>"

subsection \<open>The emergency path of \<^verbatim>\<open>setupPerformanceReactions\<close>\<close>

text \<open>
  A stream is the list of its emissions, each with its arrival time in
  milliseconds, oldest first. \<^verbatim>\<open>throttleTime(d)\<close> of the reactive-streams
  library, in its default configuration (leading edge only): a value that
  arrives while no throttle timer runs is passed on and starts a timer of
  \<open>d\<close> ms; a value that arrives while the timer runs is dropped. The second
  argument is the time at which the running timer ends, if one runs.
\<close>

fun throttleTime :: "nat \<Rightarrow> nat option \<Rightarrow> (nat \<times> 'a) list \<Rightarrow> (nat \<times> 'a) list" where
  "throttleTime d throttled [] = []"
| "throttleTime d throttled ((t, x) # rest) =
    (case throttled of
       None \<Rightarrow> (t, x) # throttleTime d (Some (t + d)) rest
     | Some e \<Rightarrow>
         if t < e then throttleTime d (Some e) rest
         else (t, x) # throttleTime d (Some (t + d)) rest)"

text \<open>
  \<^verbatim>\<open>filter(metrics => metrics.fps < 20 || metrics.memory > this.thresholds.memoryWarning)\<close>
\<close>

definition isEmergency :: "AdaptivePerformanceMetrics \<Rightarrow> bool" where
  "isEmergency metrics \<longleftrightarrow> fps metrics < 20 \<or> memory metrics > memoryWarning"

text \<open>The samples for which the subscriber of the emergency pipe runs.\<close>

definition emergencyStream ::
  "(nat \<times> AdaptivePerformanceMetrics) list \<Rightarrow> (nat \<times> AdaptivePerformanceMetrics) list" where
  "emergencyStream samples = throttleTime 5000 None (filter (\<lambda>(t, m). isEmergency m) samples)"

text \<open>The emissions of \<^verbatim>\<open>renderer:emergencyMode\<close> in a log.\<close>

fun isEmergencyMode :: "rendererEvent \<Rightarrow> bool" where
  "isEmergencyMode (EmergencyMode s) = True"
| "isEmergencyMode _ = False"

text \<open>
  The part of the state that \<open>reactToSettings\<close> leaves alone: the tier, the
  last sample, the two throttles, and the emissions of
  \<^verbatim>\<open>renderer:emergencyMode\<close> in the log.
\<close>

definition sameOutside :: "controller \<Rightarrow> controller \<Rightarrow> bool" where
  "sameOutside c c' \<longleftrightarrow>
     deviceTier c' = deviceTier c \<and> lastMetrics c' = lastMetrics c
     \<and> normalThrottle c' = normalThrottle c \<and> emergencyThrottle c' = emergencyThrottle c
     \<and> hasGL c' = hasGL c
     \<and> filter isEmergencyMode (emitLog c') = filter isEmergencyMode (emitLog c)"

subsection \<open>The two pipes together\<close>

text \<open>
  Whether \<^verbatim>\<open>throttleTime\<close> passes a value that arrives at time \<open>t\<close>.
\<close>

definition passes :: "nat option \<Rightarrow> nat \<Rightarrow> bool" where
  "passes throttled t = (case throttled of None \<Rightarrow> True | Some e \<Rightarrow> e \<le> t)"

text \<open>
  An emission of \<^verbatim>\<open>performanceMetrics$\<close> at time \<open>t\<close>. Its subscribers run in
  the order of their subscription. First the normal pipe: if
  \<^verbatim>\<open>throttleTime(1000)\<close> passes the sample, \<^verbatim>\<open>combineLatest\<close> takes it and the
  pipe runs. Then the emergency pipe: if the sample passes the filter and
  \<^verbatim>\<open>throttleTime(5000)\<close>, the subscriber calls
  \<^verbatim>\<open>emergencyQualityReduction\<close>.
\<close>

definition onSample ::
  "nat \<times> AdaptivePerformanceMetrics \<Rightarrow> controller \<Rightarrow> controller option" where
  "onSample s c =
    (case s of (t, metrics) \<Rightarrow>
       Option.bind
         (if passes (normalThrottle c) t
          then reactToSettings (c\<lparr>lastMetrics := Some metrics, normalThrottle := Some (t + 1000)\<rparr>)
          else Some c)
         (\<lambda>c1. if isEmergency metrics \<and> passes (emergencyThrottle c1) t
               then emergencyQualityReduction (c1\<lparr>emergencyThrottle := Some (t + 5000)\<rparr>)
               else Some c1))"

fun runSamples ::
  "controller \<Rightarrow> (nat \<times> AdaptivePerformanceMetrics) list \<Rightarrow> controller option" where
  "runSamples c [] = Some c"
| "runSamples c (s # rest) = Option.bind (onSample s c) (\<lambda>c'. runSamples c' rest)"

text \<open>
  The constructor, at time 0. The fields start with the default settings. The
  two pipes are subscribed; each receives the initial metrics, which
  \<^verbatim>\<open>performanceMetrics$\<close> holds. Then \<^verbatim>\<open>adjustQualityBasedOnDevice\<close> puts the
  initial settings of the tier into \<^verbatim>\<open>currentSettings$\<close>, and the normal pipe
  runs on them.
\<close>

definition newController :: "deviceTier \<Rightarrow> bool \<Rightarrow> controller" where
  "newController tier gl =
    \<lparr>current = getDefaultSettings, hasGL = gl, emitLog = [], deviceTier = tier,
     lastMetrics = None, lastCandidate = None,
     normalThrottle = None, emergencyThrottle = None\<rparr>"

definition construct :: "deviceTier \<Rightarrow> bool \<Rightarrow> controller option" where
  "construct tier gl =
    Option.bind (onSample (0, getInitialMetrics) (newController tier gl))
      (\<lambda>c. reactToSettings (c\<lparr>current := initialSettings tier\<rparr>))"

subsection \<open>\<^verbatim>\<open>detectDeviceTier\<close>\<close>

text \<open>
  \<^verbatim>\<open>String.prototype.includes\<close> (here \<open>includes_str\<close>) and
  \<^verbatim>\<open>toLowerCase\<close>, on strings of 8-bit characters (the letters A-Z and the
  upper-case letters of Latin-1 have a lower-case form 32 code points above).
\<close>

primrec includes_str :: "string \<Rightarrow> string \<Rightarrow> bool" where
  "includes_str [] sub = (sub = [])"
| "includes_str (c # cs) sub = (prefix sub (c # cs) \<or> includes_str cs sub)"

definition toLowerCaseChar :: "char \<Rightarrow> char" where
  "toLowerCaseChar c =
    (let n = (of_char c :: nat) in
     if (65 \<le> n \<and> n \<le> 90) \<or> (192 \<le> n \<and> n \<le> 222 \<and> n \<noteq> 215)
     then char_of (n + 32) else c)"

definition toLowerCase :: "string \<Rightarrow> string" where
  "toLowerCase s = map toLowerCaseChar s"

text \<open>The conditions of the two branches of the heuristic.\<close>

definition gpuHigh :: "string \<Rightarrow> bool" where
  "gpuHigh gpuInfo \<longleftrightarrow>
     includes_str gpuInfo ''adreno 6''
     \<or> includes_str gpuInfo ''mali-g7''
     \<or> includes_str gpuInfo ''apple a1''"

definition gpuMid :: "string \<Rightarrow> bool" where
  "gpuMid gpuInfo \<longleftrightarrow>
     includes_str gpuInfo ''adreno 5''
     \<or> includes_str gpuInfo ''mali-g''
     \<or> includes_str gpuInfo ''apple a''"

text \<open>
  \<^verbatim>\<open>detectDeviceTier()\<close>. The first argument is the WebGL context, absent or
  with its \<^verbatim>\<open>VENDOR\<close> and \<^verbatim>\<open>RENDERER\<close> strings; the second is
  \<^verbatim>\<open>navigator.deviceMemory\<close>, absent in browsers that do not report it. The
  test \<^verbatim>\<open>deviceMemory && ...\<close> fails for an absent value and for 0.
\<close>

definition detectDeviceTier :: "(string \<times> string) option \<Rightarrow> real option \<Rightarrow> deviceTier" where
  "detectDeviceTier gl deviceMemory =
    (case gl of
       None \<Rightarrow> TierLow
     | Some (vendor, renderer) \<Rightarrow>
         (let gpuInfo = toLowerCase (vendor @ '' '' @ renderer);
              tier = (if gpuHigh gpuInfo then TierHigh
                      else if gpuMid gpuInfo then TierMid
                      else TierLow)
          in case deviceMemory of
               None \<Rightarrow> tier
             | Some dm \<Rightarrow>
                 if dm \<noteq> 0 \<and> dm < 3 then TierLow
                 else if dm \<noteq> 0 \<and> dm \<ge> 6 then TierHigh
                 else tier))"

section \<open>Responsive manager (EnhancedResponsiveManager)\<close>

record Enhanced2025Breakpoints =
  mobile_xs :: real
  mobile_sm :: real
  mobile_md :: real
  mobile_lg :: real
  tablet_sm :: real
  tablet_md :: real
  tablet_lg :: real
  tablet_xl :: real
  tablet_pro :: real
  tablet_pro_xl :: real
  desktop_sm :: real
  desktop_md :: real
  desktop_lg :: real
  desktop_xl :: real
  desktop_xxl :: real

text \<open>The field \<^verbatim>\<open>breakpoints\<close> of the class.\<close>

definition breakpoints :: Enhanced2025Breakpoints where
  "breakpoints =
    \<lparr>mobile_xs = 320, mobile_sm = 375, mobile_md = 414, mobile_lg = 480,
     tablet_sm = 600, tablet_md = 768, tablet_lg = 834, tablet_xl = 1024,
     tablet_pro = 1194, tablet_pro_xl = 1366,
     desktop_sm = 1280, desktop_md = 1440, desktop_lg = 1680, desktop_xl = 1920,
     desktop_xxl = 2560\<rparr>"

text \<open>\<^verbatim>\<open>detectBreakpoint(width)\<close>, the tests in the order of the source.\<close>

definition detectBreakpoint :: "Enhanced2025Breakpoints \<Rightarrow> real \<Rightarrow> string" where
  "detectBreakpoint bp width =
    (if width \<ge> desktop_xxl bp then ''desktop_xxl''
     else if width \<ge> desktop_xl bp then ''desktop_xl''
     else if width \<ge> desktop_lg bp then ''desktop_lg''
     else if width \<ge> desktop_md bp then ''desktop_md''
     else if width \<ge> desktop_sm bp then ''desktop_sm''
     else if width \<ge> tablet_pro_xl bp then ''tablet_pro_xl''
     else if width \<ge> tablet_pro bp then ''tablet_pro''
     else if width \<ge> tablet_xl bp then ''tablet_xl''
     else if width \<ge> tablet_lg bp then ''tablet_lg''
     else if width \<ge> tablet_md bp then ''tablet_md''
     else if width \<ge> tablet_sm bp then ''tablet_sm''
     else if width \<ge> mobile_lg bp then ''mobile_lg''
     else if width \<ge> mobile_md bp then ''mobile_md''
     else if width \<ge> mobile_sm bp then ''mobile_sm''
     else ''mobile_xs'')"

section \<open>Save manager (SaveManager)\<close>

text \<open>
  A JavaScript string is a list of UTF-16 code units; \<open>js\<close> gives the string
  of a literal of the source.
\<close>

type_synonym codeUnit = "16 word"

type_synonym jsString = "codeUnit list"

definition js :: "string \<Rightarrow> jsString" where
  "js s = map of_char s"

text \<open>
  The interface \<^verbatim>\<open>SaveData\<close>: \<^verbatim>\<open>{version: string, timestamp: number, data: any,
  hash?: string}\<close>. The type of the saved data is a parameter.
\<close>

record 'd SaveData =
  version :: jsString
  timestamp :: nat
  data :: 'd
  hash :: "jsString option"

text \<open>
  The built-in functions of the runtime that the save manager calls are
  parameters of the model. Each returns \<open>None\<close> where the built-in throws:
  \<^item> \<open>stringifyData\<close> is \<^verbatim>\<open>JSON.stringify\<close> on the saved data; \<open>None\<close> also
    where it returns \<^verbatim>\<open>undefined\<close> (the next statement, \<^verbatim>\<open>str.length\<close>,
    then throws);
  \<^item> \<open>stringifyEnvelope\<close> is \<^verbatim>\<open>JSON.stringify\<close> on the envelope;
  \<^item> \<open>parseEnvelope\<close> is \<^verbatim>\<open>JSON.parse\<close>; \<open>None\<close> also where the text
    parses to a value that is not an object of the interface (\<^verbatim>\<open>null\<close>, or a
    value without a version string), on which the property accesses and
    \<^verbatim>\<open>version.split\<close> of \<^verbatim>\<open>load\<close> throw;
  \<^item> \<open>toNumber\<close> is \<^verbatim>\<open>Number\<close> on a string, \<open>None\<close> for \<^verbatim>\<open>NaN\<close>;
  \<^item> \<open>btoa\<close> and \<open>atob\<close> are the base-64 functions;
  \<^item> \<open>setItemOk\<close> tells whether \<^verbatim>\<open>localStorage.setItem\<close> accepts the text
    (it throws when the quota is exceeded);
  \<^item> \<open>emitOk\<close> tells whether \<^verbatim>\<open>eventBus.emit\<close> of the named event returns
    (it throws when a listener of the event throws).
\<close>

record 'd builtins =
  stringifyData :: "'d \<Rightarrow> jsString option"
  stringifyEnvelope :: "'d SaveData \<Rightarrow> jsString option"
  parseEnvelope :: "jsString \<Rightarrow> 'd SaveData option"
  toNumber :: "jsString \<Rightarrow> real option"
  btoa :: "jsString \<Rightarrow> jsString option"
  atob :: "jsString \<Rightarrow> jsString option"
  setItemOk :: "jsString \<Rightarrow> bool"
  emitOk :: "string \<Rightarrow> bool"

text \<open>
  \<^verbatim>\<open>Number.prototype.toString(36)\<close> on an integer: digits \<open>0-9a-z\<close>, a minus
  sign for a negative number.
\<close>

definition digit36 :: "nat \<Rightarrow> codeUnit" where
  "digit36 n = js ''0123456789abcdefghijklmnopqrstuvwxyz'' ! n"

fun toBase36 :: "nat \<Rightarrow> jsString" where
  "toBase36 n = (if n < 36 then [digit36 n] else toBase36 (n div 36) @ [digit36 (n mod 36)])"

declare toBase36.simps [simp del]

definition toString36 :: "int \<Rightarrow> jsString" where
  "toString36 i =
    (if i < 0 then of_char (CHR ''-'') # toBase36 (nat (- i)) else toBase36 (nat i))"

text \<open>
  The loop of \<^verbatim>\<open>generateHash\<close>; \<^verbatim>\<open>str.charCodeAt(i)\<close> is the code unit at
  \<open>i\<close>. At the head of the loop \<^verbatim>\<open>hash\<close> is a 32-bit integer;
  \<^verbatim>\<open>((hash << 5) - hash) + char\<close> is computed exactly in floating point (it is
  below \<open>2^33\<close> in absolute value) and \<^verbatim>\<open>hash & hash\<close> reduces it modulo
  \<open>2^32\<close> to a signed 32-bit integer. On 32-bit words this is one wrapping
  step.
\<close>

definition hashStep :: "32 word \<Rightarrow> codeUnit \<Rightarrow> 32 word" where
  "hashStep h c = (push_bit 5 h - h) + of_nat (unat c)"

definition hashLoop :: "jsString \<Rightarrow> 32 word" where
  "hashLoop str = foldl hashStep 0 str"

text \<open>\<^verbatim>\<open>generateHash(data)\<close>; \<open>None\<close> where it throws.\<close>

definition generateHash :: "'d builtins \<Rightarrow> 'd \<Rightarrow> jsString option" where
  "generateHash env d =
    (case stringifyData env d of
       None \<Rightarrow> None
     | Some str \<Rightarrow> Some (toString36 (sint (hashLoop str))))"

text \<open>
  \<^verbatim>\<open>verifyIntegrity(saveData)\<close>; \<open>None\<close> where it throws. \<^verbatim>\<open>!saveData.hash\<close>
  holds for a missing hash and for the empty string.
\<close>

definition verifyIntegrity :: "'d builtins \<Rightarrow> 'd SaveData \<Rightarrow> bool option" where
  "verifyIntegrity env saveData =
    (case hash saveData of
       None \<Rightarrow> Some True
     | Some h \<Rightarrow>
         if h = [] then Some True
         else (case generateHash env (data saveData) of
                 None \<Rightarrow> None
               | Some expectedHash \<Rightarrow> Some (h = expectedHash)))"

definition getVersion :: jsString where
  "getVersion = js ''1.0.0''"

text \<open>\<^verbatim>\<open>String.prototype.split('.')\<close>: the segments between the dots, at least one.\<close>

fun split_dot :: "jsString \<Rightarrow> jsString list" where
  "split_dot [] = [[]]"
| "split_dot (c # cs) =
    (if c = of_char (CHR ''.'') then [] # split_dot cs
     else (case split_dot cs of
             seg # segs \<Rightarrow> (c # seg) # segs
           | [] \<Rightarrow> [[c]]))"

text \<open>
  \<^verbatim>\<open>isVersionCompatible(version)\<close>: \<^verbatim>\<open>current[0] === saved[0]\<close> on the numbers of
  the first segments; \<^verbatim>\<open>NaN\<close> is equal to nothing.
\<close>

definition isVersionCompatible :: "'d builtins \<Rightarrow> jsString \<Rightarrow> bool" where
  "isVersionCompatible env v =
    (case (map (toNumber env) (split_dot getVersion), map (toNumber env) (split_dot v)) of
       (Some c # _, Some s # _) \<Rightarrow> c = s
     | _ \<Rightarrow> False)"

text \<open>\<^verbatim>\<open>migrate(saveData)\<close>, a placeholder in the source.\<close>

definition migrate :: "'d SaveData \<Rightarrow> 'd" where
  "migrate saveData = data saveData"

text \<open>The values \<^verbatim>\<open>GameEvents.SAVE_GAME\<close> and \<^verbatim>\<open>GameEvents.LOAD_GAME\<close>.\<close>

definition SAVE_GAME :: string where "SAVE_GAME = ''save:game''"
definition LOAD_GAME :: string where "LOAD_GAME = ''load:game''"

text \<open>
  \<^verbatim>\<open>save(data)\<close>. The state is the item of \<^verbatim>\<open>localStorage\<close> under the storage
  key, absent or a text; \<open>now\<close> is \<^verbatim>\<open>Date.now()\<close>. Every exception of the
  \<^verbatim>\<open>try\<close> block ends in the \<^verbatim>\<open>catch\<close>, which returns \<^verbatim>\<open>false\<close>; the storage
  is then as it was, unless the exception comes from the \<^verbatim>\<open>emit\<close> that follows
  \<^verbatim>\<open>setItem\<close>.
\<close>

definition save ::
  "'d builtins \<Rightarrow> bool \<Rightarrow> nat \<Rightarrow> 'd \<Rightarrow> jsString option \<Rightarrow> bool \<times> jsString option" where
  "save env useCompression now d storage =
    (case generateHash env d of
       None \<Rightarrow> (False, storage)
     | Some h \<Rightarrow>
         (let saveData = \<lparr>version = getVersion, timestamp = now, data = d, hash = Some h\<rparr>
          in case stringifyEnvelope env saveData of
               None \<Rightarrow> (False, storage)
             | Some serialized \<Rightarrow>
                 (case (if useCompression then btoa env serialized else Some serialized) of
                    None \<Rightarrow> (False, storage)
                  | Some text \<Rightarrow>
                      if \<not> setItemOk env text then (False, storage)
                      else if \<not> emitOk env SAVE_GAME then (False, Some text)
                      else (True, Some text))))"

text \<open>
  \<^verbatim>\<open>load()\<close>. The result \<open>None\<close> is the \<^verbatim>\<open>null\<close> of the branches that
  reject; \<open>Some d\<close> is the return of the data \<open>d\<close> of the envelope (which
  may itself be the value \<^verbatim>\<open>null\<close>). \<^verbatim>\<open>!serialized\<close> holds for a
  missing item and for the empty text. Every exception of the \<^verbatim>\<open>try\<close> block
  ends in the \<^verbatim>\<open>catch\<close>, which returns \<^verbatim>\<open>null\<close>.
\<close>

definition load :: "'d builtins \<Rightarrow> bool \<Rightarrow> jsString option \<Rightarrow> 'd option" where
  "load env useCompression storage =
    (case storage of
       None \<Rightarrow> None
     | Some stored \<Rightarrow>
         if stored = [] then None
         else (case (if useCompression then atob env stored else Some stored) of
                 None \<Rightarrow> None
               | Some serialized \<Rightarrow>
                   (case parseEnvelope env serialized of
                      None \<Rightarrow> None
                    | Some saveData \<Rightarrow>
                        (case verifyIntegrity env saveData of
                           None \<Rightarrow> None
                         | Some False \<Rightarrow> None
                         | Some True \<Rightarrow>
                             if \<not> isVersionCompatible env (version saveData)
                             then Some (migrate saveData)
                             else if \<not> emitOk env LOAD_GAME then None
                             else Some (data saveData)))))"

subsection \<open>The built-ins on envelopes with a small payload\<close>

text \<open>
  For the examples: what the built-ins do on envelopes whose data is a natural
  number (a score), \<^verbatim>\<open>NaN\<close> or \<^verbatim>\<open>null\<close>. \<^verbatim>\<open>JSON.stringify\<close> writes a number
  in decimal digits and both \<^verbatim>\<open>NaN\<close> and \<^verbatim>\<open>null\<close> as \<^verbatim>\<open>null\<close>;
  \<open>envelopeText\<close> is the text it gives for the envelope (a missing hash is
  left out). \<^verbatim>\<open>JSON.parse\<close> is its inverse on the texts of a given list of
  envelopes, never gives \<^verbatim>\<open>NaN\<close> (it reads \<^verbatim>\<open>null\<close> as \<^verbatim>\<open>null\<close>), and throws
  on every other text. \<^verbatim>\<open>Number\<close> is given on strings of digits. The
  examples save and load without compression; the base-64 functions are given
  as throwing on every text, which \<^verbatim>\<open>atob\<close> does on a text that is not
  base-64. The storage accepts every text and no listener throws.
\<close>

datatype payload = Score nat | NaN | Null

fun toString10 :: "nat \<Rightarrow> jsString" where
  "toString10 n = (if n < 10 then [digit36 n] else toString10 (n div 10) @ [digit36 (n mod 10)])"

declare toString10.simps [simp del]

definition payloadText :: "payload \<Rightarrow> jsString" where
  "payloadText p = (case p of Score n \<Rightarrow> toString10 n | NaN \<Rightarrow> js ''null'' | Null \<Rightarrow> js ''null'')"

definition quoted :: "jsString \<Rightarrow> jsString" where
  "quoted s = of_char (CHR 0x22) # s @ [of_char (CHR 0x22)]"

definition envelopeText :: "payload SaveData \<Rightarrow> jsString" where
  "envelopeText e =
    js ''{'' @ quoted (js ''version'') @ js '':'' @ quoted (version e)
    @ js '','' @ quoted (js ''timestamp'') @ js '':'' @ toString10 (timestamp e)
    @ js '','' @ quoted (js ''data'') @ js '':'' @ payloadText (data e)
    @ (case hash e of
         None \<Rightarrow> []
       | Some h \<Rightarrow> js '','' @ quoted (js ''hash'') @ js '':'' @ quoted h)
    @ js ''}''"

definition digitsToNumber :: "jsString \<Rightarrow> real option" where
  "digitsToNumber s =
    (if s \<noteq> [] \<and> list_all (\<lambda>c. 48 \<le> unat c \<and> unat c \<le> 57) s
     then Some (foldl (\<lambda>acc c. 10 * acc + real (unat c - 48)) 0 s)
     else None)"

definition payloadBuiltins :: "payload SaveData list \<Rightarrow> payload builtins" where
  "payloadBuiltins known =
    \<lparr>stringifyData = (\<lambda>p. Some (payloadText p)),
     stringifyEnvelope = (\<lambda>e. Some (envelopeText e)),
     parseEnvelope = (\<lambda>s. find (\<lambda>e. envelopeText e = s \<and> data e \<noteq> NaN) known),
     toNumber = digitsToNumber,
     btoa = (\<lambda>s. None),
     atob = (\<lambda>s. None),
     setItemOk = (\<lambda>s. True),
     emitOk = (\<lambda>s. True)\<rparr>"

text \<open>
  The envelope \<^verbatim>\<open>save(7)\<close> writes at time 0; the same envelope with one bit of
  the data flipped (the digit 7 has become 6) and the hash kept; the changed
  envelope with the hash removed; and the envelope that the text written by
  \<^verbatim>\<open>save(NaN)\<close> parses to.
\<close>

definition savedEnvelope :: "payload SaveData" where
  "savedEnvelope =
    \<lparr>version = js ''1.0.0'', timestamp = 0, data = Score 7, hash = Some (js ''1j'')\<rparr>"

definition tamperedEnvelope :: "payload SaveData" where
  "tamperedEnvelope = savedEnvelope\<lparr>data := Score 6\<rparr>"

definition strippedEnvelope :: "payload SaveData" where
  "strippedEnvelope = tamperedEnvelope\<lparr>hash := None\<rparr>"

definition nullEnvelope :: "payload SaveData" where
  "nullEnvelope =
    \<lparr>version = js ''1.0.0'', timestamp = 0, data = Null, hash = Some (js ''20pzb'')\<rparr>"

section \<open>Event bus (ReactiveEventBus)\<close>

text \<open>
  Times are in milliseconds, counted from the moment the pipe is subscribed.
  A timer that is due at time \<open>e\<close> has fired when an event stamped \<open>e\<close> or
  later is handled.

  \<^verbatim>\<open>bufferTime(bufferTimeSpan)\<close> of the reactive-streams library: a buffer is
  opened at subscription; every \<open>bufferTimeSpan\<close> ms the buffer is emitted, as
  an array, and a new one is opened. \<open>buffered bufferTimeSpan k evs\<close> is the
  content of the buffer number \<open>k\<close>, and \<open>bufferTime bufferTimeSpan n evs\<close> are
  the first \<open>n\<close> emissions, each with the time at which it is made.
\<close>

definition buffered :: "nat \<Rightarrow> nat \<Rightarrow> (nat \<times> 'a) list \<Rightarrow> 'a list" where
  "buffered bufferTimeSpan k evs =
    map snd (filter (\<lambda>(t, v). k * bufferTimeSpan \<le> t \<and> t < (k + 1) * bufferTimeSpan) evs)"

definition bufferTime :: "nat \<Rightarrow> nat \<Rightarrow> (nat \<times> 'a) list \<Rightarrow> (nat \<times> 'a list) list" where
  "bufferTime bufferTimeSpan n evs =
    map (\<lambda>k. ((k + 1) * bufferTimeSpan, buffered bufferTimeSpan k evs)) [0..<n]"

text \<open>
  \<^verbatim>\<open>doubleClick(eventName, timeWindow)\<close> on the events of the channel:
  \<^verbatim>\<open>bufferTime(timeWindow)\<close>, \<^verbatim>\<open>filter(events => events.length === 2)\<close>,
  \<^verbatim>\<open>map(events => events[1])\<close>.
\<close>

definition doubleClick :: "nat \<Rightarrow> nat \<Rightarrow> (nat \<times> 'a) list \<Rightarrow> (nat \<times> 'a) list" where
  "doubleClick timeWindow n evs =
    map (\<lambda>(t, events). (t, events ! 1))
      (filter (\<lambda>(t, events). length events = 2) (bufferTime timeWindow n evs))"

section \<open>Gesture manager (GestureManager)\<close>

text \<open>
  A \<^verbatim>\<open>Touch\<close> of the browser (its \<^verbatim>\<open>identifier\<close> is \<open>touchIdentifier\<close>
  here), the \<^verbatim>\<open>TouchPoint\<close> of the source (its fields carry the prefix
  \<open>tp_\<close> here) and the corner of the element's bounding rectangle.
\<close>

record Touch =
  touchIdentifier :: int
  clientX :: real
  clientY :: real

record TouchPoint =
  tp_id :: int
  tp_x :: real
  tp_y :: real
  tp_timestamp :: nat

record DOMRect =
  rect_left :: real
  rect_top :: real

text \<open>
  A touch event with its time stamp: \<^verbatim>\<open>touchstart\<close> with \<^verbatim>\<open>e.touches\<close>;
  \<^verbatim>\<open>touchmove\<close> with \<^verbatim>\<open>e.touches[0]\<close> and the other touches; \<^verbatim>\<open>touchend\<close>
  with \<^verbatim>\<open>e.changedTouches[0]\<close> and \<^verbatim>\<open>e.touches\<close>, the contacts that remain.
\<close>

datatype touchEvent =
    TouchStart nat "Touch list"
  | TouchMove nat Touch "Touch list"
  | TouchEnd nat Touch "Touch list"

fun timeStamp :: "touchEvent \<Rightarrow> nat" where
  "timeStamp (TouchStart t ts) = t"
| "timeStamp (TouchMove t m ts) = t"
| "timeStamp (TouchEnd t c ts) = t"

text \<open>The field \<^verbatim>\<open>config\<close> of the class.\<close>

definition tapTimeout :: nat where "tapTimeout = 300"
definition doubleTapInterval :: nat where "doubleTapInterval = 300"
definition longPressDelay :: nat where "longPressDelay = 500"
definition swipeMinDistance :: real where "swipeMinDistance = 50"
definition swipeMaxTime :: nat where "swipeMaxTime = 300"

text \<open>\<^verbatim>\<open>getTouchPoint(touch)\<close> at time \<open>now\<close>, and \<^verbatim>\<open>getDistance\<close>.\<close>

definition getTouchPoint :: "DOMRect \<Rightarrow> nat \<Rightarrow> Touch \<Rightarrow> TouchPoint" where
  "getTouchPoint rect now touch =
    \<lparr>tp_id = touchIdentifier touch,
     tp_x = clientX touch - rect_left rect,
     tp_y = clientY touch - rect_top rect,
     tp_timestamp = now\<rparr>"

definition getDistance :: "TouchPoint \<Rightarrow> TouchPoint \<Rightarrow> real" where
  "getDistance touch1 touch2 =
    (let deltaX = tp_x touch2 - tp_x touch1;
         deltaY = tp_y touch2 - tp_y touch1
     in sqrt (deltaX * deltaX + deltaY * deltaY))"

subsection \<open>\<^verbatim>\<open>setupLongPressDetection\<close>\<close>

text \<open>
  The state of the pipe is the inner subscription that \<^verbatim>\<open>switchMap\<close> holds: no
  timer, or a timer with the time at which it is due and the start touch it
  will deliver. Before an event is handled, a timer that is due has fired and
  has delivered the long press.
\<close>

definition fireTimer :: "(nat \<times> 'a) option \<Rightarrow> nat \<Rightarrow> (nat \<times> 'a) list \<times> (nat \<times> 'a) option" where
  "fireTimer pending now =
    (case pending of
       None \<Rightarrow> ([], None)
     | Some (due, v) \<Rightarrow> if due \<le> now then ([(due, v)], None) else ([], Some (due, v)))"

text \<open>
  What an event does to the timer:
  \<^item> a \<^verbatim>\<open>touchstart\<close> with exactly one touch makes \<^verbatim>\<open>switchMap\<close> drop the
    running timer and start \<^verbatim>\<open>timer(longPressDelay)\<close> for the new start touch;
  \<^item> any \<^verbatim>\<open>touchend\<close> cancels the timer (\<^verbatim>\<open>takeUntil(touchEnd$)\<close>);
  \<^item> a \<^verbatim>\<open>touchmove\<close> more than 10 px from the start touch cancels it
    (the second \<^verbatim>\<open>takeUntil\<close>).
\<close>

fun longPressEvent ::
  "DOMRect \<Rightarrow> touchEvent \<Rightarrow> (nat \<times> TouchPoint) option \<Rightarrow> (nat \<times> TouchPoint) option" where
  "longPressEvent rect (TouchStart t ts) pending =
    (case ts of
       [a] \<Rightarrow> Some (t + longPressDelay, getTouchPoint rect t a)
     | _ \<Rightarrow> pending)"
| "longPressEvent rect (TouchEnd t c ts) pending = None"
| "longPressEvent rect (TouchMove t m ts) pending =
    (case pending of
       None \<Rightarrow> None
     | Some (due, startTouch) \<Rightarrow>
         if getDistance startTouch (getTouchPoint rect t m) > 10 then None
         else Some (due, startTouch))"

text \<open>
  The long presses the subscriber receives, each with the time at which it is
  delivered. After the last event a running timer fires when it is due.
\<close>

fun longPress ::
  "DOMRect \<Rightarrow> (nat \<times> TouchPoint) option \<Rightarrow> touchEvent list \<Rightarrow> (nat \<times> TouchPoint) list" where
  "longPress rect pending [] = (case pending of None \<Rightarrow> [] | Some p \<Rightarrow> [p])"
| "longPress rect pending (e # rest) =
    (let (fired, pending') = fireTimer pending (timeStamp e)
     in fired @ longPress rect (longPressEvent rect e pending') rest)"

subsection \<open>\<^verbatim>\<open>setupTapDetection\<close>\<close>

text \<open>
  What \<^verbatim>\<open>tap$\<close> emits: the time stamps of the start and of the end event, and
  the touch point of the end.
\<close>

record tapData =
  startStamp :: nat
  endStamp :: nat
  touch :: TouchPoint

text \<open>
  \<^verbatim>\<open>tap$\<close>. The state is the inner subscription of \<^verbatim>\<open>switchMap\<close>: the last
  \<^verbatim>\<open>touchstart\<close> with exactly one touch, with its time. Every \<^verbatim>\<open>touchend\<close>
  that arrives before \<^verbatim>\<open>timer(tapTimeout)\<close> fires and less than 10 px from
  the start is a tap.
\<close>

fun tapStream ::
  "DOMRect \<Rightarrow> (nat \<times> Touch) option \<Rightarrow> touchEvent list \<Rightarrow> (nat \<times> tapData) list" where
  "tapStream rect inner [] = []"
| "tapStream rect inner (TouchStart t ts # rest) =
    (case ts of
       [a] \<Rightarrow> tapStream rect (Some (t, a)) rest
     | _ \<Rightarrow> tapStream rect inner rest)"
| "tapStream rect inner (TouchMove t m ts # rest) = tapStream rect inner rest"
| "tapStream rect inner (TouchEnd t c ts # rest) =
    (case inner of
       None \<Rightarrow> tapStream rect inner rest
     | Some (t0, a) \<Rightarrow>
         if t < t0 + tapTimeout
            \<and> getDistance (getTouchPoint rect t a) (getTouchPoint rect t c) < 10
         then (t, \<lparr>startStamp = t0, endStamp = t, touch = getTouchPoint rect t c\<rparr>)
                # tapStream rect inner rest
         else tapStream rect inner rest)"

text \<open>
  The single-tap pipe,
  \<^verbatim>\<open>switchMap(tapData => timer(d).pipe(map(() => tapData), takeUntil(tap$)))\<close>:
  a tap is delivered \<open>d\<close> ms after it arrived, unless another tap arrives
  before. After the last tap the timer fires.
\<close>

fun singleTap :: "nat \<Rightarrow> (nat \<times> 'a) list \<Rightarrow> (nat \<times> 'a) list" where
  "singleTap d [] = []"
| "singleTap d [(t, v)] = [(t + d, v)]"
| "singleTap d ((t, v) # (t', v') # rest) =
    (if t + d \<le> t' then (t + d, v) # singleTap d ((t', v') # rest)
     else singleTap d ((t', v') # rest))"

text \<open>
  The double-tap pipe: \<^verbatim>\<open>bufferTime(doubleTapInterval)\<close>, the buffers of
  exactly two taps, less than 50 px apart.
\<close>

definition doubleTap :: "nat \<Rightarrow> (nat \<times> tapData) list \<Rightarrow> (nat \<times> tapData list) list" where
  "doubleTap n taps =
    filter (\<lambda>(t, taps). getDistance (touch (taps ! 0)) (touch (taps ! 1)) < 50)
      (filter (\<lambda>(t, taps). length taps = 2) (bufferTime doubleTapInterval n taps))"

text \<open>
  The gesture events of the two subscribers, each with the time at which
  \<^verbatim>\<open>emitGesture\<close> is called: a tap with its position and duration, a double
  tap with its position and interval.
\<close>

datatype gestureEvent =
    Tap nat TouchPoint int
  | DoubleTap nat TouchPoint int
  | LongPress nat TouchPoint

definition tapGestures :: "DOMRect \<Rightarrow> touchEvent list \<Rightarrow> gestureEvent list" where
  "tapGestures rect evs =
    map (\<lambda>(t, tapData). Tap t (touch tapData) (int (endStamp tapData) - int (startStamp tapData)))
      (singleTap doubleTapInterval (tapStream rect None evs))"

definition doubleTapGestures :: "DOMRect \<Rightarrow> nat \<Rightarrow> touchEvent list \<Rightarrow> gestureEvent list" where
  "doubleTapGestures rect n evs =
    map (\<lambda>(t, taps). DoubleTap t (touch (taps ! 1))
                       (int (endStamp (taps ! 1)) - int (endStamp (taps ! 0))))
      (doubleTap n (tapStream rect None evs))"

definition longPressGestures :: "DOMRect \<Rightarrow> touchEvent list \<Rightarrow> gestureEvent list" where
  "longPressGestures rect evs = map (\<lambda>(t, p). LongPress t p) (longPress rect None evs)"

text \<open>
  For the examples: the element at the origin, a finger at a given place, and
  a finger that goes down at \<open>(100, 100)\<close> at time \<open>t0\<close> and is lifted at the
  same place at \<open>t1\<close>.
\<close>

definition origin :: DOMRect where
  "origin = \<lparr>rect_left = 0, rect_top = 0\<rparr>"

definition fingerAt :: "real \<Rightarrow> real \<Rightarrow> Touch" where
  "fingerAt px py = \<lparr>touchIdentifier = 0, clientX = px, clientY = py\<rparr>"

definition finger :: Touch where
  "finger = fingerAt 100 100"

definition quickTap :: "nat \<Rightarrow> nat \<Rightarrow> touchEvent list" where
  "quickTap t0 t1 = [TouchStart t0 [finger], TouchEnd t1 finger []]"

section \<open>Properties of the adaptive renderer\<close>

lemma calculateOptimalSettings_quality_low:
  "fps m < 30 \<Longrightarrow> quality (calculateOptimalSettings tier m cur) = QLow"
  by (simp add: calculateOptimalSettings_def Let_def fpsTargets_low_def
      split: option.splits)

lemma applyRenderSettings_current [simp]:
  "current (applyRenderSettings s c) = s"
  by (simp add: applyRenderSettings_def Let_def)

text \<open>
  C2. A sample with fps below 30 (fps = 25 among them) gives a candidate of
  quality low, never high, for every device tier and whatever the current
  settings are; once applied, the current settings have quality low.
\<close>

theorem low_fps_dominates_device_tier:
  "fps m < 30 \<Longrightarrow>
     quality (calculateOptimalSettings tier m cur) = QLow
   \<and> quality (calculateOptimalSettings tier m cur) \<noteq> QHigh
   \<and> quality (current (applyRenderSettings (calculateOptimalSettings tier m (current c)) c)) = QLow"
  by (simp add: calculateOptimalSettings_quality_low)

theorem low_fps_dominates_device_tier_witness:
  "fps (sample 25 0) < 30
   \<and> quality (calculateOptimalSettings TierHigh (sample 25 0) (initialSettings TierHigh)) = QLow
   \<and> quality (calculateOptimalSettings TierHigh (sample 25 0) (initialSettings TierHigh)) \<noteq> QHigh"
  using low_fps_dominates_device_tier
    [of "sample 25 0" TierHigh "initialSettings TierHigh"]
  by (simp add: sample_def)

text \<open>
  C1, as stated, fails: with the same sample (fps = 50) and the same device
  tier, two different current settings give two different candidates, because
  the candidate starts as a copy of the current settings.
\<close>

theorem candidate_depends_on_current_settings:
  "calculateOptimalSettings TierMid (sample 50 0) (initialSettings TierMid)
     \<noteq> calculateOptimalSettings TierMid (sample 50 0) (initialSettings TierLow)"
  by (simp add: calculateOptimalSettings_def sample_def initialSettings_def Let_def
      fpsTargets_low_def fpsTargets_medium_def fpsTargets_high_def memoryWarning_def)

text \<open>
  C1, amended. The candidate is computed from the sample, the device tier and
  the current settings. Where the threshold ladder applies (fps below 45, or
  fps at least 58 on a high-tier device whose current quality is not ultra)
  it overwrites every field but the target frame rate: two evaluations with
  the same sample and the same device tier agree on quality, resolution,
  antialiasing, particle limit, shadow quality and post-processing whatever
  the current settings are, and differ at most in \<open>targetFPS\<close>, which is
  carried over from the current settings. Between 45 and 58 fps, without
  memory, thermal or battery pressure, the candidate is the current settings.
\<close>

theorem candidate_ladder_overwrites_current:
  "(fps m < 45
      \<or> (fps m \<ge> 58 \<and> tier = TierHigh \<and> quality cur1 \<noteq> QUltra \<and> quality cur2 \<noteq> QUltra)
    \<longrightarrow> calculateOptimalSettings tier m cur1 =
          (calculateOptimalSettings tier m cur2)
            \<lparr>targetFPS := targetFPS (calculateOptimalSettings tier m cur1)\<rparr>)
   \<and> (45 \<le> fps m \<and> fps m < 58 \<and> memory m \<le> 120
        \<and> batteryLevel m = None \<and> thermal m = Some Normal
    \<longrightarrow> calculateOptimalSettings tier m cur1 = cur1)"
  by (auto simp: calculateOptimalSettings_def Let_def fpsTargets_low_def fpsTargets_medium_def
      fpsTargets_high_def memoryWarning_def split: option.splits)

theorem candidate_ladder_overwrites_current_witness:
  "fps (sample 40 0) < 45
   \<and> calculateOptimalSettings TierHigh (sample 40 0) (initialSettings TierHigh) =
       (calculateOptimalSettings TierHigh (sample 40 0) (initialSettings TierLow))
         \<lparr>targetFPS := 60\<rparr>
   \<and> 45 \<le> fps (sample 50 0) \<and> fps (sample 50 0) < 58 \<and> memory (sample 50 0) \<le> 120
   \<and> batteryLevel (sample 50 0) = None \<and> thermal (sample 50 0) = Some Normal
   \<and> calculateOptimalSettings TierMid (sample 50 0) (initialSettings TierLow)
       = initialSettings TierLow"
proof -
  have h: "fps (sample 40 0) < 45" by (simp add: sample_def)
  have t: "targetFPS (calculateOptimalSettings TierHigh (sample 40 0) (initialSettings TierHigh))
      = 60"
    by (simp add: calculateOptimalSettings_def sample_def initialSettings_def Let_def
        fpsTargets_low_def fpsTargets_medium_def fpsTargets_high_def memoryWarning_def)
  have k: "45 \<le> fps (sample 50 0) \<and> fps (sample 50 0) < 58 \<and> memory (sample 50 0) \<le> 120
      \<and> batteryLevel (sample 50 0) = None \<and> thermal (sample 50 0) = Some Normal"
    by (simp add: sample_def)
  have r1: "calculateOptimalSettings TierHigh (sample 40 0) (initialSettings TierHigh) =
       (calculateOptimalSettings TierHigh (sample 40 0) (initialSettings TierLow))
         \<lparr>targetFPS := 60\<rparr>"
    using h candidate_ladder_overwrites_current
      [of "sample 40 0" TierHigh "initialSettings TierHigh" "initialSettings TierLow"]
    by (simp only: t simp_thms)
  have r2: "calculateOptimalSettings TierMid (sample 50 0) (initialSettings TierLow)
       = initialSettings TierLow"
    using k candidate_ladder_overwrites_current
      [of "sample 50 0" TierMid "initialSettings TierLow" "initialSettings TierLow"]
    by blast
  from h r1 k r2 show ?thesis by blast
qed

subsection \<open>The emergency path\<close>

lemma throttleTime_after:
  "sorted (map fst xs) \<Longrightarrow> (t, x) \<in> set (throttleTime d (Some e) xs) \<Longrightarrow> e \<le> t"
proof (induction xs arbitrary: e)
  case Nil
  then show ?case by simp
next
  case (Cons a xs)
  obtain t0 x0 where a: "a = (t0, x0)" by (cases a)
  from Cons.prems(1) a have srt: "sorted (map fst xs)" by simp
  show ?case
  proof (cases "t0 < e")
    case True
    with Cons.prems a have "(t, x) \<in> set (throttleTime d (Some e) xs)" by simp
    with Cons.IH srt show ?thesis by blast
  next
    case False
    with Cons.prems a have "(t, x) = (t0, x0) \<or> (t, x) \<in> set (throttleTime d (Some (t0 + d)) xs)"
      by simp
    then show ?thesis
    proof
      assume "(t, x) = (t0, x0)"
      with False show ?thesis by simp
    next
      assume "(t, x) \<in> set (throttleTime d (Some (t0 + d)) xs)"
      with Cons.IH srt have "t0 + d \<le> t" by blast
      with False show ?thesis by simp
    qed
  qed
qed

lemma throttleTime_subset:
  "set (throttleTime d thr xs) \<subseteq> set xs"
  by (induction d thr xs rule: throttleTime.induct) (auto split: option.splits if_splits)

lemma throttleTime_window:
  "sorted (map fst xs) \<Longrightarrow>
     length (filter (\<lambda>(t, x). T \<le> t \<and> t < T + d) (throttleTime d thr xs)) \<le> 1"
proof (induction xs arbitrary: thr)
  case Nil
  then show ?case by simp
next
  case (Cons a xs)
  obtain t0 x0 where a: "a = (t0, x0)" by (cases a)
  from Cons.prems a have srt: "sorted (map fst xs)" by simp
  let ?P = "\<lambda>(t, x). T \<le> t \<and> t < T + d"
  have emit: "length (filter ?P ((t0, x0) # throttleTime d (Some (t0 + d)) xs)) \<le> 1"
  proof (cases "T \<le> t0 \<and> t0 < T + d")
    case True
    have "\<forall>y \<in> set (throttleTime d (Some (t0 + d)) xs). \<not> ?P y"
    proof
      fix y assume y: "y \<in> set (throttleTime d (Some (t0 + d)) xs)"
      obtain t x where yy: "y = (t, x)" by (cases y)
      with y have "(t, x) \<in> set (throttleTime d (Some (t0 + d)) xs)" by simp
      then have "t0 + d \<le> t" by (rule throttleTime_after [OF srt])
      with True yy show "\<not> ?P y" by simp
    qed
    then have "filter ?P (throttleTime d (Some (t0 + d)) xs) = []"
      by (simp add: filter_empty_conv)
    with True show ?thesis by simp
  next
    case False
    with Cons.IH [OF srt, of "Some (t0 + d)"] show ?thesis by auto
  qed
  show ?case
  proof (cases thr)
    case None
    with a emit show ?thesis by simp
  next
    case (Some e)
    show ?thesis
    proof (cases "t0 < e")
      case True
      with Some a Cons.IH [OF srt, of "Some e"] show ?thesis by simp
    next
      case False
      with Some a emit show ?thesis by simp
    qed
  qed
qed

lemma sorted_fst_filter:
  "sorted (map fst xs) \<Longrightarrow> sorted (map fst (filter P xs))"
  by (induction xs) auto

text \<open>
  The emissions of the emergency pipe: only samples with fps below 20 or memory
  above 150 MB; with the samples in order of arrival, at most one in any
  interval of 5000 ms; a qualifying sample that arrives while no timer runs is
  let through; of two samples with fps = 10 that arrive 1000 ms apart, only the
  first.
\<close>

lemma emergencyStream_throttled:
  "sorted (map fst samples) \<Longrightarrow>
     (\<forall>(t, m) \<in> set (emergencyStream samples). fps m < 20 \<or> memory m > 150)
   \<and> (\<forall>T. length (filter (\<lambda>(t, m). T \<le> t \<and> t < T + 5000) (emergencyStream samples)) \<le> 1)"
proof (intro conjI)
  show "\<forall>(t, m) \<in> set (emergencyStream samples). fps m < 20 \<or> memory m > 150"
    using throttleTime_subset [of 5000 None "filter (\<lambda>(t, m). isEmergency m) samples"]
    by (auto simp: emergencyStream_def isEmergency_def memoryWarning_def)
next
  assume "sorted (map fst samples)"
  then have "sorted (map fst (filter (\<lambda>(t, m). isEmergency m) samples))"
    by (rule sorted_fst_filter)
  then show "\<forall>T. length (filter (\<lambda>(t, m). T \<le> t \<and> t < T + 5000) (emergencyStream samples)) \<le> 1"
    unfolding emergencyStream_def by (blast intro: throttleTime_window)
qed

lemma emergencyStream_fires:
  "fps m < 20 \<or> memory m > 150 \<Longrightarrow>
   emergencyStream ((t, m) # rest) =
     (t, m) # throttleTime 5000 (Some (t + 5000)) (filter (\<lambda>(t, m). isEmergency m) rest)"
  by (simp add: emergencyStream_def isEmergency_def memoryWarning_def)

lemma emergencyStream_skips:
  "20 \<le> fps m \<Longrightarrow> memory m \<le> 150 \<Longrightarrow>
   emergencyStream ((t, m) # rest) = emergencyStream rest"
  by (simp add: emergencyStream_def isEmergency_def memoryWarning_def)

lemma emergencyStream_two_samples:
  "emergencyStream [(t, sample 10 mem), (t + 1000, sample 10 mem)] = [(t, sample 10 mem)]"
  by (simp add: emergencyStream_def isEmergency_def sample_def)

subsection \<open>The normal pipe inside \<^verbatim>\<open>applyRenderSettings\<close>\<close>

lemmas calc_defs = calculateOptimalSettings_def Let_def thermalHot_def batteryLow_def stepsUp_def
  fpsTargets_low_def fpsTargets_medium_def fpsTargets_high_def memoryWarning_def

lemma calc_quality:
  "quality (calculateOptimalSettings tier m s) =
    (if thermalHot m \<or> batteryLow m \<or> fps m < 30 then QLow
     else if fps m < 45 then QMedium
     else if stepsUp tier m s then QHigh else quality s)"
  by (cases "thermal m"; cases "batteryLevel m") (auto simp: calc_defs)

lemma calc_targetFPS:
  "targetFPS (calculateOptimalSettings tier m s) =
    (if thermalHot m \<or> batteryLow m then 30 else targetFPS s)"
  by (cases "thermal m"; cases "batteryLevel m") (auto simp: calc_defs)

lemma calc_resolution:
  "resolution (calculateOptimalSettings tier m s) =
    (if fps m < 30 then 0.5 else if fps m < 45 then 0.7
     else if stepsUp tier m s then 1.0 else resolution s)"
  by (cases "thermal m"; cases "batteryLevel m") (auto simp: calc_defs)

lemma calc_antialiasing:
  "antialiasing (calculateOptimalSettings tier m s) =
    (if fps m < 45 then False else if stepsUp tier m s then True else antialiasing s)"
  by (cases "thermal m"; cases "batteryLevel m") (auto simp: calc_defs)

lemma calc_shadowQuality:
  "shadowQuality (calculateOptimalSettings tier m s) =
    (if fps m < 30 then ShadowOff else if fps m < 45 then ShadowLow
     else if stepsUp tier m s then ShadowHigh else shadowQuality s)"
  by (cases "thermal m"; cases "batteryLevel m") (auto simp: calc_defs)

lemma calc_particleLimit:
  "particleLimit (calculateOptimalSettings tier m s) =
    (if fps m < 30 then 50 else if fps m < 45 then (if memory m > 120 then 50 else 100)
     else if stepsUp tier m s then (if memory m > 120 then 50 else 300)
     else if memory m > 120 then min (particleLimit s) 50 else particleLimit s)"
  by (cases "thermal m"; cases "batteryLevel m") (auto simp: calc_defs)

lemma calc_postProcessing:
  "postProcessing (calculateOptimalSettings tier m s) =
    (if batteryLow m \<or> memory m > 120 \<or> fps m < 45 then False
     else if stepsUp tier m s then True else postProcessing s)"
  by (cases "thermal m"; cases "batteryLevel m") (auto simp: calc_defs)

lemma calc_more:
  "RenderSettings.more (calculateOptimalSettings tier m s) = RenderSettings.more s"
  by (cases "thermal m"; cases "batteryLevel m") (auto simp: calc_defs)

lemmas calc_fields = calc_quality calc_targetFPS calc_resolution calc_antialiasing
  calc_shadowQuality calc_particleLimit calc_postProcessing

lemma calc_idem3:
  "calculateOptimalSettings tier m
     (calculateOptimalSettings tier m (calculateOptimalSettings tier m s))
   = calculateOptimalSettings tier m (calculateOptimalSettings tier m s)"
  by (rule RenderSettings.equality) (simp_all add: calc_fields stepsUp_def)

lemma applyRenderSettings_fields [simp]:
  "deviceTier (applyRenderSettings s c) = deviceTier c"
  "lastMetrics (applyRenderSettings s c) = lastMetrics c"
  "lastCandidate (applyRenderSettings s c) = lastCandidate c"
  "normalThrottle (applyRenderSettings s c) = normalThrottle c"
  "emergencyThrottle (applyRenderSettings s c) = emergencyThrottle c"
  "hasGL (applyRenderSettings s c) = hasGL c"
  by (simp_all add: applyRenderSettings_def Let_def)

lemma applyRenderSettings_no_emergencyMode [simp]:
  "filter isEmergencyMode (emitLog (applyRenderSettings s c)) = filter isEmergencyMode (emitLog c)"
  by (simp add: applyRenderSettings_def Let_def)

lemma reactToSettings_none:
  "lastMetrics c = None \<Longrightarrow> reactToSettings c = Some c"
  by (subst reactToSettings.simps) simp

lemma reactToSettings_same:
  "lastMetrics c = Some m \<Longrightarrow>
   lastCandidate c = Some (calculateOptimalSettings (deviceTier c) m (current c)) \<Longrightarrow>
   reactToSettings c = Some c"
  by (subst reactToSettings.simps) simp

lemma reactToSettings_unchanged:
  "lastMetrics c = Some m \<Longrightarrow>
   lastCandidate c \<noteq> Some (calculateOptimalSettings (deviceTier c) m (current c)) \<Longrightarrow>
   calculateOptimalSettings (deviceTier c) m (current c) = current c \<Longrightarrow>
   reactToSettings c = Some (c\<lparr>lastCandidate := Some (current c)\<rparr>)"
  by (subst reactToSettings.simps) simp

lemma reactToSettings_apply:
  "lastMetrics c = Some m \<Longrightarrow>
   lastCandidate c \<noteq> Some (calculateOptimalSettings (deviceTier c) m (current c)) \<Longrightarrow>
   calculateOptimalSettings (deviceTier c) m (current c) \<noteq> current c \<Longrightarrow>
   reactToSettings c =
     reactToSettings
       (applyRenderSettings (calculateOptimalSettings (deviceTier c) m (current c))
          (c\<lparr>lastCandidate := Some (calculateOptimalSettings (deviceTier c) m (current c))\<rparr>))"
  by (subst reactToSettings.simps) simp

text \<open>After a candidate has been applied, the pipe ends after one more round at most.\<close>

lemma reactToSettings_after_apply:
  assumes "lastMetrics c = Some m"
    and "current c = calculateOptimalSettings (deviceTier c) m s0"
    and "lastCandidate c = Some (current c)"
  shows "\<exists>c'. reactToSettings c = Some c' \<and> sameOutside c c'
     \<and> current c' = calculateOptimalSettings (deviceTier c) m (current c)
     \<and> lastCandidate c' = Some (current c')"
proof (cases "calculateOptimalSettings (deviceTier c) m (current c) = current c")
  case True
  with assms have "reactToSettings c = Some c"
    by (simp add: reactToSettings_same)
  with True assms show ?thesis by (simp add: sameOutside_def)
next
  case False
  let ?n = "calculateOptimalSettings (deviceTier c) m (current c)"
  let ?c1 = "applyRenderSettings ?n (c\<lparr>lastCandidate := Some ?n\<rparr>)"
  from False assms have "reactToSettings c = reactToSettings ?c1"
    by (simp add: reactToSettings_apply)
  moreover have "reactToSettings ?c1 = Some ?c1"
    using assms by (intro reactToSettings_same [of _ m]) (simp_all add: calc_idem3)
  ultimately show ?thesis
    by (simp add: sameOutside_def)
qed

lemma reactToSettings_total:
  "\<exists>c'. reactToSettings c = Some c' \<and> sameOutside c c'"
proof (cases "lastMetrics c")
  case None
  then show ?thesis by (simp add: reactToSettings_none sameOutside_def)
next
  case (Some m)
  let ?n = "calculateOptimalSettings (deviceTier c) m (current c)"
  show ?thesis
  proof (cases "lastCandidate c = Some ?n")
    case True
    with Some show ?thesis by (simp add: reactToSettings_same sameOutside_def)
  next
    case differs: False
    show ?thesis
    proof (cases "?n = current c")
      case True
      with Some differs have "reactToSettings c = Some (c\<lparr>lastCandidate := Some (current c)\<rparr>)"
        by (simp add: reactToSettings_unchanged)
      then show ?thesis by (simp add: sameOutside_def)
    next
      case False
      let ?c1 = "applyRenderSettings ?n (c\<lparr>lastCandidate := Some ?n\<rparr>)"
      from Some differs False have step: "reactToSettings c = reactToSettings ?c1"
        by (simp add: reactToSettings_apply)
      have "\<exists>c'. reactToSettings ?c1 = Some c' \<and> sameOutside ?c1 c'
         \<and> current c' = calculateOptimalSettings (deviceTier ?c1) m (current ?c1)
         \<and> lastCandidate c' = Some (current c')"
        using Some by (intro reactToSettings_after_apply [of _ _ "current c"]) simp_all
      then obtain c' where "reactToSettings ?c1 = Some c'" and "sameOutside ?c1 c'"
        by blast
      with step show ?thesis by (auto simp: sameOutside_def)
    qed
  qed
qed

text \<open>The pipe in closed form: it ends after two applications at most.\<close>

lemma reactToSettings_closed:
  assumes "lastMetrics c = Some m"
  shows "reactToSettings c =
    Some (let n1 = calculateOptimalSettings (deviceTier c) m (current c);
              n2 = calculateOptimalSettings (deviceTier c) m n1
          in if lastCandidate c = Some n1 then c
             else if n1 = current c then c\<lparr>lastCandidate := Some n1\<rparr>
             else if n2 = n1 then applyRenderSettings n1 (c\<lparr>lastCandidate := Some n1\<rparr>)
             else applyRenderSettings n2
                    ((applyRenderSettings n1 (c\<lparr>lastCandidate := Some n1\<rparr>))
                       \<lparr>lastCandidate := Some n2\<rparr>))"
proof -
  let ?n1 = "calculateOptimalSettings (deviceTier c) m (current c)"
  let ?n2 = "calculateOptimalSettings (deviceTier c) m ?n1"
  let ?c1 = "applyRenderSettings ?n1 (c\<lparr>lastCandidate := Some ?n1\<rparr>)"
  let ?c2 = "applyRenderSettings ?n2 (?c1\<lparr>lastCandidate := Some ?n2\<rparr>)"
  show ?thesis
  proof (cases "lastCandidate c = Some ?n1")
    case True
    with assms show ?thesis by (simp add: reactToSettings_same Let_def)
  next
    case differs: False
    show ?thesis
    proof (cases "?n1 = current c")
      case True
      with assms differs show ?thesis
        by (simp add: reactToSettings_unchanged Let_def)
    next
      case changed: False
      from assms differs changed have step1: "reactToSettings c = reactToSettings ?c1"
        by (simp add: reactToSettings_apply)
      show ?thesis
      proof (cases "?n2 = ?n1")
        case True
        with assms have "reactToSettings ?c1 = Some ?c1"
          by (intro reactToSettings_same [of _ m]) simp_all
        with step1 differs changed True show ?thesis by (simp add: Let_def)
      next
        case False
        with assms have "reactToSettings ?c1 = reactToSettings ?c2"
          using reactToSettings_apply [of ?c1 m] by simp
        moreover from assms have "reactToSettings ?c2 = Some ?c2"
          by (intro reactToSettings_same [of _ m]) (simp_all add: calc_idem3)
        ultimately show ?thesis
          using step1 differs changed False by (simp add: Let_def)
      qed
    qed
  qed
qed

lemma calc_initial_default_high:
  "calculateOptimalSettings TierHigh getInitialMetrics getDefaultSettings = initialSettings TierHigh"
  by (simp add: calculateOptimalSettings_def Let_def getInitialMetrics_def getDefaultSettings_def
      initialSettings_def fpsTargets_low_def fpsTargets_medium_def fpsTargets_high_def
      memoryWarning_def)

lemma calc_initial_high:
  "calculateOptimalSettings TierHigh getInitialMetrics (initialSettings TierHigh)
     = initialSettings TierHigh"
  by (simp add: calculateOptimalSettings_def Let_def getInitialMetrics_def
      initialSettings_def fpsTargets_low_def fpsTargets_medium_def fpsTargets_high_def
      memoryWarning_def)

text \<open>The state of a controller that has just been built on a high-tier device.\<close>

lemma construct_high:
  "\<exists>c. construct TierHigh gl = Some c
     \<and> current c = initialSettings TierHigh
     \<and> deviceTier c = TierHigh
     \<and> lastMetrics c = Some getInitialMetrics
     \<and> lastCandidate c = Some (initialSettings TierHigh)
     \<and> normalThrottle c = Some 1000
     \<and> emergencyThrottle c = None
     \<and> filter isEmergencyMode (emitLog c) = []"
proof -
  have ne: "initialSettings TierHigh \<noteq> getDefaultSettings"
    by (simp add: initialSettings_def getDefaultSettings_def)
  have quiet: "\<not> isEmergency getInitialMetrics"
    by (simp add: isEmergency_def getInitialMetrics_def memoryWarning_def)
  let ?c0 = "(newController TierHigh gl)
      \<lparr>lastMetrics := Some getInitialMetrics, normalThrottle := Some 1000\<rparr>"
  let ?c1 = "applyRenderSettings (initialSettings TierHigh)
      (?c0\<lparr>lastCandidate := Some (initialSettings TierHigh)\<rparr>)"
  have r0: "reactToSettings ?c0 = Some ?c1"
    using ne by (simp add: reactToSettings_closed [of _ getInitialMetrics] newController_def
        calc_initial_default_high calc_initial_high Let_def)
  have s0: "onSample (0, getInitialMetrics) (newController TierHigh gl) = Some ?c1"
    using quiet r0 by (simp add: onSample_def passes_def newController_def)
  have r1: "reactToSettings (?c1\<lparr>current := initialSettings TierHigh\<rparr>)
      = Some (?c1\<lparr>current := initialSettings TierHigh\<rparr>)"
    by (rule reactToSettings_same [of _ getInitialMetrics])
      (simp_all add: calc_initial_high newController_def)
  have "construct TierHigh gl = Some (?c1\<lparr>current := initialSettings TierHigh\<rparr>)"
    by (simp add: construct_def s0 r1)
  then show ?thesis
    by (simp add: newController_def)
qed

lemma applyRenderSettings_notified_total:
  "\<exists>c'. applyRenderSettings_notified s c = Some c' \<and> sameOutside c c'"
proof (cases "s = current c")
  case True
  then show ?thesis by (simp add: applyRenderSettings_notified_def sameOutside_def)
next
  case False
  obtain c' where "reactToSettings (applyRenderSettings s c) = Some c'"
    and "sameOutside (applyRenderSettings s c) c'"
    using reactToSettings_total by blast
  with False show ?thesis by (simp add: applyRenderSettings_notified_def sameOutside_def)
qed

lemma emergencyQualityReduction_total:
  "\<exists>c'. emergencyQualityReduction c = Some c'
     \<and> deviceTier c' = deviceTier c \<and> lastMetrics c' = lastMetrics c
     \<and> normalThrottle c' = normalThrottle c \<and> emergencyThrottle c' = emergencyThrottle c
     \<and> length (filter isEmergencyMode (emitLog c'))
         = Suc (length (filter isEmergencyMode (emitLog c)))
     \<and> last (emitLog c') = EmergencyMode emergencySettings"
proof -
  obtain c1 where "applyRenderSettings_notified emergencySettings c = Some c1"
    and "sameOutside c c1"
    using applyRenderSettings_notified_total by blast
  then show ?thesis
    by (simp add: emergencyQualityReduction_def sameOutside_def)
qed

lemma onSample_total:
  "\<exists>c'. onSample (t, m) c = Some c'
     \<and> emergencyThrottle c' =
         (if isEmergency m \<and> passes (emergencyThrottle c) t then Some (t + 5000)
          else emergencyThrottle c)
     \<and> length (filter isEmergencyMode (emitLog c'))
         = length (filter isEmergencyMode (emitLog c))
           + (if isEmergency m \<and> passes (emergencyThrottle c) t then 1 else 0)"
proof -
  let ?n = "if passes (normalThrottle c) t
      then reactToSettings (c\<lparr>lastMetrics := Some m, normalThrottle := Some (t + 1000)\<rparr>)
      else Some c"
  have "\<exists>c1. ?n = Some c1 \<and> emergencyThrottle c1 = emergencyThrottle c
      \<and> filter isEmergencyMode (emitLog c1) = filter isEmergencyMode (emitLog c)"
  proof (cases "passes (normalThrottle c) t")
    case True
    obtain c1 where
      "reactToSettings (c\<lparr>lastMetrics := Some m, normalThrottle := Some (t + 1000)\<rparr>) = Some c1"
      and "sameOutside (c\<lparr>lastMetrics := Some m, normalThrottle := Some (t + 1000)\<rparr>) c1"
      using reactToSettings_total by blast
    with True show ?thesis by (simp add: sameOutside_def)
  next
    case False
    then show ?thesis by simp
  qed
  then obtain c1 where n: "?n = Some c1"
    and thr: "emergencyThrottle c1 = emergencyThrottle c"
    and lg: "filter isEmergencyMode (emitLog c1) = filter isEmergencyMode (emitLog c)"
    by blast
  show ?thesis
  proof (cases "isEmergency m \<and> passes (emergencyThrottle c) t")
    case True
    obtain c2 where "emergencyQualityReduction (c1\<lparr>emergencyThrottle := Some (t + 5000)\<rparr>) = Some c2"
      and "emergencyThrottle c2 = emergencyThrottle (c1\<lparr>emergencyThrottle := Some (t + 5000)\<rparr>)"
      and "length (filter isEmergencyMode (emitLog c2))
         = Suc (length (filter isEmergencyMode (emitLog (c1\<lparr>emergencyThrottle := Some (t + 5000)\<rparr>))))"
      using emergencyQualityReduction_total by blast
    with True n thr lg show ?thesis by (simp add: onSample_def)
  next
    case False
    with n thr lg show ?thesis by (auto simp: onSample_def)
  qed
qed

lemma throttleTime_passes:
  "throttleTime d thr ((t, v) # rest) =
     (if passes thr t then (t, v) # throttleTime d (Some (t + d)) rest
      else throttleTime d thr rest)"
  by (cases thr) (auto simp: passes_def)

text \<open>
  The pipes never hang, and \<^verbatim>\<open>renderer:emergencyMode\<close> is emitted once for each
  sample that the filter and \<^verbatim>\<open>throttleTime(5000)\<close> let through.
\<close>

lemma runSamples_emergency_count:
  "\<exists>c'. runSamples c samples = Some c'
     \<and> length (filter isEmergencyMode (emitLog c'))
         = length (filter isEmergencyMode (emitLog c))
           + length (throttleTime 5000 (emergencyThrottle c)
                       (filter (\<lambda>(t, m). isEmergency m) samples))"
proof (induction samples arbitrary: c)
  case Nil
  then show ?case by simp
next
  case (Cons s samples)
  obtain t m where s: "s = (t, m)" by (cases s)
  obtain c1 where c1: "onSample (t, m) c = Some c1"
    and thr: "emergencyThrottle c1 =
         (if isEmergency m \<and> passes (emergencyThrottle c) t then Some (t + 5000)
          else emergencyThrottle c)"
    and lg: "length (filter isEmergencyMode (emitLog c1))
         = length (filter isEmergencyMode (emitLog c))
           + (if isEmergency m \<and> passes (emergencyThrottle c) t then 1 else 0)"
    using onSample_total by blast
  from Cons.IH [of c1] obtain c' where "runSamples c1 samples = Some c'"
    and "length (filter isEmergencyMode (emitLog c'))
         = length (filter isEmergencyMode (emitLog c1))
           + length (throttleTime 5000 (emergencyThrottle c1)
                       (filter (\<lambda>(t, m). isEmergency m) samples))"
    by blast
  with s c1 thr lg show ?case
    by (simp add: throttleTime_passes del: throttleTime.simps)
qed

lemma runSamples_emergencyStream:
  "emergencyThrottle c = None \<Longrightarrow>
   \<exists>c'. runSamples c samples = Some c'
     \<and> length (filter isEmergencyMode (emitLog c'))
         = length (filter isEmergencyMode (emitLog c)) + length (emergencyStream samples)"
  using runSamples_emergency_count [of c samples] by (simp add: emergencyStream_def)

lemma calc_pressure_high:
  "calculateOptimalSettings TierHigh (sample 60 200) (initialSettings TierHigh)
     = (initialSettings TierHigh)\<lparr>particleLimit := 50, postProcessing := False\<rparr>"
  "calculateOptimalSettings TierHigh (sample 60 200)
       ((initialSettings TierHigh)\<lparr>particleLimit := 50, postProcessing := False\<rparr>)
     = (initialSettings TierHigh)\<lparr>particleLimit := 50, postProcessing := False\<rparr>"
  "calculateOptimalSettings TierHigh (sample 60 200) emergencySettings
     = (initialSettings TierHigh)\<lparr>targetFPS := 30, particleLimit := 50, postProcessing := False\<rparr>"
  "calculateOptimalSettings TierHigh (sample 60 200)
       ((initialSettings TierHigh)\<lparr>targetFPS := 30, particleLimit := 50, postProcessing := False\<rparr>)
     = (initialSettings TierHigh)\<lparr>targetFPS := 30, particleLimit := 50, postProcessing := False\<rparr>"
  by (simp_all add: calculateOptimalSettings_def Let_def sample_def emergencySettings_def
      initialSettings_def fpsTargets_low_def fpsTargets_medium_def fpsTargets_high_def
      memoryWarning_def)

text \<open>
  C3. A controller on a high-tier device receives, 2000 ms after it was
  built, a sample with 60 fps and 200 MB of memory. The sample sets off the
  emergency path: \<^verbatim>\<open>emergencyQualityReduction\<close> applies the emergency settings and
  emits \<^verbatim>\<open>renderer:emergencyMode\<close>, once. But applying them puts them into
  \<^verbatim>\<open>currentSettings$\<close>, so the normal pipe runs inside the call, computes its
  candidate from the same sample and applies it on top: the controller ends
  with quality high, not with the lowest tier.
\<close>

theorem emergency_override_is_overwritten:
  "map_option (\<lambda>c. (current c, last (emitLog c), length (filter isEmergencyMode (emitLog c))))
     (Option.bind (construct TierHigh True) (onSample (2000, sample 60 200)))
   = Some (\<lparr>quality = QHigh, targetFPS = 30, resolution = 1.0, antialiasing = True,
            particleLimit = 50, shadowQuality = ShadowHigh, postProcessing = False\<rparr>,
           EmergencyMode emergencySettings, 1)"
proof -
  let ?m = "sample 60 200"
  let ?H = "initialSettings TierHigh"
  let ?K1 = "?H\<lparr>particleLimit := 50, postProcessing := False\<rparr>"
  let ?K2 = "?H\<lparr>targetFPS := 30, particleLimit := 50, postProcessing := False\<rparr>"
  obtain c where c: "construct TierHigh True = Some c"
    and cur: "current c = ?H" and tier: "deviceTier c = TierHigh"
    and lc: "lastCandidate c = Some ?H"
    and nt: "normalThrottle c = Some 1000" and et: "emergencyThrottle c = None"
    and lg: "filter isEmergencyMode (emitLog c) = []"
    using construct_high [of True] by blast
  have ne: "?K1 \<noteq> ?H" "emergencySettings \<noteq> ?K1" "?K2 \<noteq> emergencySettings" "?K2 \<noteq> ?K1"
    by (simp_all add: initialSettings_def emergencySettings_def)
  let ?ca = "c\<lparr>lastMetrics := Some ?m, normalThrottle := Some 3000\<rparr>"
  let ?c1 = "applyRenderSettings ?K1 (?ca\<lparr>lastCandidate := Some ?K1\<rparr>)"
  have r1: "reactToSettings ?ca = Some ?c1"
    using ne cur tier lc
    by (simp add: reactToSettings_closed [of _ ?m] calc_pressure_high Let_def)
  let ?cb = "applyRenderSettings emergencySettings (?c1\<lparr>emergencyThrottle := Some 7000\<rparr>)"
  let ?c2 = "applyRenderSettings ?K2 (?cb\<lparr>lastCandidate := Some ?K2\<rparr>)"
  have r2: "reactToSettings ?cb = Some ?c2"
    using ne tier
    by (simp add: reactToSettings_closed [of _ ?m] calc_pressure_high Let_def)
  have e: "isEmergency ?m"
    by (simp add: isEmergency_def sample_def memoryWarning_def)
  have q: "emergencyQualityReduction (?c1\<lparr>emergencyThrottle := Some 7000\<rparr>)
      = Some (?c2\<lparr>emitLog := emitLog ?c2 @ [EmergencyMode emergencySettings]\<rparr>)"
    using ne r2 by (simp add: emergencyQualityReduction_def applyRenderSettings_notified_def)
  have "onSample (2000, ?m) c
      = Some (?c2\<lparr>emitLog := emitLog ?c2 @ [EmergencyMode emergencySettings]\<rparr>)"
    using nt et e r1 q by (simp add: onSample_def passes_def)
  with c lg show ?thesis
    by (simp add: initialSettings_def)
qed

section \<open>Properties of device-tier detection\<close>

text \<open>
  C6, as stated, fails: a desktop GPU that none of the six substrings matches
  is assigned the lowest tier, not the middle one, when no device memory is
  reported, and also when the reported device memory (4 GB) overrides nothing.
\<close>

theorem unknown_gpu_is_not_mid:
  "\<not> gpuHigh (toLowerCase (''NVIDIA Corporation'' @ '' '' @ ''GeForce GTX 1080/PCIe/SSE2''))
   \<and> \<not> gpuMid (toLowerCase (''NVIDIA Corporation'' @ '' '' @ ''GeForce GTX 1080/PCIe/SSE2''))
   \<and> detectDeviceTier (Some (''NVIDIA Corporation'', ''GeForce GTX 1080/PCIe/SSE2'')) None = TierLow
   \<and> detectDeviceTier (Some (''NVIDIA Corporation'', ''GeForce GTX 1080/PCIe/SSE2'')) None \<noteq> TierMid
   \<and> detectDeviceTier (Some (''NVIDIA Corporation'', ''GeForce GTX 1080/PCIe/SSE2'')) (Some 4)
       = TierLow"
  by code_simp

text \<open>
  C6, amended. A GPU whose vendor and renderer string matches none of the
  known substrings is assigned the lowest tier whenever the device memory
  does not override it: when no device memory is reported and when the
  reported device memory is below 6 (0 included). A reported device memory of
  6 or more overrides the tier to high. The tier is never the middle one.
\<close>

theorem unknown_gpu_is_low:
  "\<not> gpuHigh (toLowerCase (vendor @ '' '' @ renderer)) \<Longrightarrow>
   \<not> gpuMid (toLowerCase (vendor @ '' '' @ renderer)) \<Longrightarrow>
   detectDeviceTier (Some (vendor, renderer)) deviceMemory =
     (case deviceMemory of
        None \<Rightarrow> TierLow
      | Some dm \<Rightarrow> if dm \<ge> 6 then TierHigh else TierLow)"
  by (cases deviceMemory) (auto simp: detectDeviceTier_def Let_def)

theorem unknown_gpu_is_low_witness:
  "\<not> gpuHigh (toLowerCase (''Intel Inc.'' @ '' '' @ ''Intel Iris OpenGL Engine''))
   \<and> \<not> gpuMid (toLowerCase (''Intel Inc.'' @ '' '' @ ''Intel Iris OpenGL Engine''))
   \<and> detectDeviceTier (Some (''Intel Inc.'', ''Intel Iris OpenGL Engine'')) None = TierLow
   \<and> detectDeviceTier (Some (''Intel Inc.'', ''Intel Iris OpenGL Engine'')) (Some 4) = TierLow
   \<and> detectDeviceTier (Some (''Intel Inc.'', ''Intel Iris OpenGL Engine'')) (Some 0) = TierLow
   \<and> detectDeviceTier (Some (''Intel Inc.'', ''Intel Iris OpenGL Engine'')) (Some 8) = TierHigh"
proof -
  have h: "\<not> gpuHigh (toLowerCase (''Intel Inc.'' @ '' '' @ ''Intel Iris OpenGL Engine''))"
    by code_simp
  have m: "\<not> gpuMid (toLowerCase (''Intel Inc.'' @ '' '' @ ''Intel Iris OpenGL Engine''))"
    by code_simp
  from unknown_gpu_is_low [OF h m, of None] unknown_gpu_is_low [OF h m, of "Some 4"]
    unknown_gpu_is_low [OF h m, of "Some 0"] unknown_gpu_is_low [OF h m, of "Some 8"] h m
  show ?thesis by simp
qed

section \<open>Properties of breakpoint classification\<close>

text \<open>
  C5. Width 834 is classified as \<open>tablet_lg\<close>. But the scan does not follow
  the thresholds from the largest down: \<open>desktop_sm\<close> (1280) is tested before
  \<open>tablet_pro_xl\<close> (1366), so a width of 1366, which the table gives to
  \<open>tablet_pro_xl\<close>, is classified as \<open>desktop_sm\<close>, a breakpoint with a
  smaller threshold than the largest one the width meets.
\<close>

theorem detectBreakpoint_1366_is_desktop_sm:
  "detectBreakpoint breakpoints 834 = ''tablet_lg''
   \<and> detectBreakpoint breakpoints 1366 = ''desktop_sm''
   \<and> tablet_pro_xl breakpoints \<le> 1366
   \<and> desktop_sm breakpoints < tablet_pro_xl breakpoints"
  by (simp add: detectBreakpoint_def breakpoints_def)

text \<open>No width at all is classified as \<open>tablet_pro_xl\<close>.\<close>

lemma detectBreakpoint_never_tablet_pro_xl:
  "detectBreakpoint breakpoints w \<noteq> ''tablet_pro_xl''"
  by (simp add: detectBreakpoint_def breakpoints_def)

section \<open>Properties of the save manager\<close>

subsection \<open>The checksum tells two texts apart that differ in one character\<close>

lemma hashStep_linear: "hashStep h c = 31 * h + of_nat (unat c)"
  by (simp add: hashStep_def push_bit_eq_mult)

lemma foldl_hashStep_diff:
  "foldl hashStep h ys - foldl hashStep h' ys = 31 ^ length ys * (h - h')"
proof (induction ys arbitrary: h h')
  case Nil
  then show ?case by simp
next
  case (Cons a ys)
  have "foldl hashStep h (a # ys) - foldl hashStep h' (a # ys)
      = 31 ^ length ys * (hashStep h a - hashStep h' a)"
    using Cons.IH [of "hashStep h a" "hashStep h' a"] by simp
  also have "hashStep h a - hashStep h' a = 31 * (h - h')"
    by (simp add: hashStep_linear algebra_simps)
  finally show ?case by (simp add: algebra_simps)
qed

lemma inverse_of_31: "(3186588639 :: 32 word) * 31 = 1"
  by simp

lemma power_31_cancel: "(31 :: 32 word) ^ k * d = 0 \<Longrightarrow> d = 0"
proof (induction k)
  case 0
  then show ?case by simp
next
  case (Suc k)
  then have "3186588639 * (31 * (31 ^ k * d)) = (0 :: 32 word)"
    by (simp add: mult.assoc)
  then have "(3186588639 * 31) * (31 ^ k * d) = (0 :: 32 word)"
    by (simp only: mult.assoc)
  then have "31 ^ k * d = (0 :: 32 word)"
    by (simp only: inverse_of_31 mult_1)
  with Suc.IH show ?case by simp
qed

lemma codeUnit_word_inj:
  fixes c c' :: codeUnit
  assumes eq: "(of_nat (unat c) :: 32 word) = of_nat (unat c')"
  shows "c = c'"
proof -
  have "\<And>d :: codeUnit. unat d < 2 ^ 32"
  proof -
    fix d :: codeUnit
    have "unat d < 2 ^ 16" using unsigned_less [of d] by simp
    also have "(2 :: nat) ^ 16 < 2 ^ 32" by simp
    finally show "unat d < 2 ^ 32" .
  qed
  then have b: "unat c < 2 ^ 32" "unat c' < 2 ^ 32"
    by blast+
  from eq have "unat (of_nat (unat c) :: 32 word) = unat (of_nat (unat c') :: 32 word)"
    by simp
  then have "unat c mod 2 ^ LENGTH(32) = unat c' mod 2 ^ LENGTH(32)"
    by (simp only: unat_of_nat)
  with b have "unat c = unat c'"
    by simp
  then show ?thesis by (rule word_unat_eq_iff [THEN iffD2])
qed

lemma hashLoop_single_char:
  "c \<noteq> c' \<Longrightarrow> hashLoop (xs @ c # ys) \<noteq> hashLoop (xs @ c' # ys)"
proof
  assume ne: "c \<noteq> c'" and eq: "hashLoop (xs @ c # ys) = hashLoop (xs @ c' # ys)"
  let ?h = "foldl hashStep 0 xs"
  from eq have "foldl hashStep (hashStep ?h c) ys - foldl hashStep (hashStep ?h c') ys = 0"
    by (simp add: hashLoop_def)
  then have "31 ^ length ys * (hashStep ?h c - hashStep ?h c') = 0"
    by (simp only: foldl_hashStep_diff)
  then have "hashStep ?h c - hashStep ?h c' = 0"
    by (rule power_31_cancel)
  then have "(of_nat (unat c) :: 32 word) = of_nat (unat c')"
    by (simp add: hashStep_linear)
  with ne show False by (blast dest: codeUnit_word_inj)
qed

lemma digits_distinct: "distinct (js ''0123456789abcdefghijklmnopqrstuvwxyz'')"
  by (simp add: js_def)

lemma digits_length: "length (js ''0123456789abcdefghijklmnopqrstuvwxyz'') = 36"
  by (simp add: js_def)

lemma digit36_inj: "n < 36 \<Longrightarrow> m < 36 \<Longrightarrow> digit36 n = digit36 m \<Longrightarrow> n = m"
  using digits_distinct by (simp add: digit36_def nth_eq_iff_index_eq digits_length)

lemma digit36_not_minus: "n < 36 \<Longrightarrow> digit36 n \<noteq> of_char (CHR ''-'')"
proof -
  assume "n < 36"
  then have "digit36 n \<in> set (js ''0123456789abcdefghijklmnopqrstuvwxyz'')"
    unfolding digit36_def by (intro nth_mem) (simp add: digits_length)
  then show ?thesis by (auto simp: js_def)
qed

lemma toBase36_nonempty: "toBase36 n \<noteq> []"
  by (subst toBase36.simps) simp

lemma toBase36_last: "last (toBase36 n) = digit36 (n mod 36)"
  by (subst toBase36.simps) simp

lemma toBase36_butlast:
  "butlast (toBase36 n) = (if n < 36 then [] else toBase36 (n div 36))"
  by (subst toBase36.simps) (simp add: butlast_append)

lemma toBase36_inj: "toBase36 n = toBase36 m \<Longrightarrow> n = m"
proof (induction n arbitrary: m rule: less_induct)
  case (less n)
  from less.prems have l: "digit36 (n mod 36) = digit36 (m mod 36)"
    using toBase36_last [of n] toBase36_last [of m] by simp
  then have md: "n mod 36 = m mod 36"
    by (intro digit36_inj) simp_all
  from less.prems have b: "butlast (toBase36 n) = butlast (toBase36 m)" by simp
  show ?case
  proof (cases "n < 36")
    case True
    with b have "m < 36"
      using toBase36_nonempty [of "m div 36"] by (auto simp: toBase36_butlast split: if_splits)
    with True md show ?thesis by simp
  next
    case False
    with b have m36: "\<not> m < 36"
      using toBase36_nonempty [of "n div 36"] by (auto simp: toBase36_butlast split: if_splits)
    with False b have "toBase36 (n div 36) = toBase36 (m div 36)"
      by (simp add: toBase36_butlast)
    moreover from False have "n div 36 < n" by simp
    ultimately have "n div 36 = m div 36" by (rule less.IH [rotated])
    with md show ?thesis
      by (metis div_mult_mod_eq)
  qed
qed

lemma toBase36_hd_not_minus: "hd (toBase36 n) \<noteq> of_char (CHR ''-'')"
proof (induction n rule: less_induct)
  case (less n)
  show ?case
  proof (cases "n < 36")
    case True
    then show ?thesis
      by (subst toBase36.simps) (simp add: digit36_not_minus [simplified])
  next
    case False
    then have "n div 36 < n" by simp
    from less.IH [OF this] False show ?thesis
      by (subst toBase36.simps) (simp add: toBase36_nonempty)
  qed
qed

lemma toString36_nonempty: "toString36 i \<noteq> []"
  by (simp add: toString36_def toBase36_nonempty)

lemma toString36_inj: "toString36 i = toString36 j \<Longrightarrow> i = j"
proof -
  assume eq: "toString36 i = toString36 j"
  have neg: "\<And>a b. of_char (CHR ''-'') # toBase36 a \<noteq> toBase36 b"
  proof
    fix a b assume "of_char (CHR ''-'') # toBase36 a = toBase36 b"
    then have "hd (toBase36 b) = of_char (CHR ''-'')" by (metis list.sel(1))
    with toBase36_hd_not_minus show False by blast
  qed
  show ?thesis
  proof (cases "i < 0"; cases "j < 0")
    assume "i < 0" "j < 0"
    with eq have "nat (- i) = nat (- j)" by (simp add: toString36_def toBase36_inj)
    with \<open>i < 0\<close> \<open>j < 0\<close> show ?thesis by simp
  next
    assume "i < 0" "\<not> j < 0"
    with eq neg [of "nat (- i)" "nat j"] show ?thesis by (simp add: toString36_def)
  next
    assume "\<not> i < 0" "j < 0"
    with eq neg [of "nat (- j)" "nat i"] show ?thesis by (simp add: toString36_def)
  next
    assume "\<not> i < 0" "\<not> j < 0"
    with eq have "nat i = nat j" by (simp add: toString36_def toBase36_inj)
    with \<open>\<not> i < 0\<close> \<open>\<not> j < 0\<close> show ?thesis by simp
  qed
qed

lemma checksum_single_char:
  "c \<noteq> c' \<Longrightarrow>
   toString36 (sint (hashLoop (xs @ c # ys))) \<noteq> toString36 (sint (hashLoop (xs @ c' # ys)))"
proof
  assume ne: "c \<noteq> c'"
  assume "toString36 (sint (hashLoop (xs @ c # ys))) = toString36 (sint (hashLoop (xs @ c' # ys)))"
  then have "sint (hashLoop (xs @ c # ys)) = sint (hashLoop (xs @ c' # ys))"
    by (rule toString36_inj)
  then have "hashLoop (xs @ c # ys) = hashLoop (xs @ c' # ys)"
    by (rule signed_word_eqI)
  with ne hashLoop_single_char show False by blast
qed

subsection \<open>\<^verbatim>\<open>load\<close> after \<^verbatim>\<open>save\<close>\<close>

lemma verifyIntegrity_no_hash:
  "hash sd = None \<or> hash sd = Some [] \<Longrightarrow> verifyIntegrity env sd = Some True"
  by (auto simp: verifyIntegrity_def)

lemma load_accepted:
  "stored \<noteq> [] \<Longrightarrow>
   (if uc then atob env stored else Some stored) = Some ser \<Longrightarrow>
   parseEnvelope env ser = Some sd \<Longrightarrow>
   verifyIntegrity env sd = Some True \<Longrightarrow>
   emitOk env LOAD_GAME \<Longrightarrow>
   load env uc (Some stored) = Some (data sd)"
  by (simp add: load_def migrate_def)

lemma load_rejected:
  "(if uc then atob env stored else Some stored) = Some ser \<Longrightarrow>
   parseEnvelope env ser = Some sd \<Longrightarrow>
   verifyIntegrity env sd \<noteq> Some True \<Longrightarrow>
   load env uc (Some stored) = None"
  by (cases "verifyIntegrity env sd") (auto simp: load_def)

lemma verifyIntegrity_fresh:
  "generateHash env X = Some h \<Longrightarrow>
   verifyIntegrity env \<lparr>version = v, timestamp = now, data = X, hash = Some h\<rparr> = Some True"
  by (simp add: verifyIntegrity_def)

lemma verifyIntegrity_mismatch:
  "hash sd = Some h \<Longrightarrow> h \<noteq> [] \<Longrightarrow> generateHash env (data sd) \<noteq> Some h \<Longrightarrow>
   verifyIntegrity env sd \<noteq> Some True"
  by (auto simp: verifyIntegrity_def split: option.splits)

lemma verifyIntegrity_single_char:
  assumes "stringifyData env X = Some (xs @ c # ys)"
    and "stringifyData env (data sd) = Some (xs @ c' # ys)"
    and "c \<noteq> c'"
    and "hash sd = generateHash env X"
  shows "verifyIntegrity env sd \<noteq> Some True"
proof -
  let ?h = "toString36 (sint (hashLoop (xs @ c # ys)))"
  from assms(1,4) have h: "hash sd = Some ?h"
    by (simp add: generateHash_def)
  have ne: "?h \<noteq> []" by (rule toString36_nonempty)
  from assms(2) have "generateHash env (data sd)
      = Some (toString36 (sint (hashLoop (xs @ c' # ys))))"
    by (simp add: generateHash_def)
  with checksum_single_char [OF assms(3), of xs ys] have "generateHash env (data sd) \<noteq> Some ?h"
    by simp
  with h ne show ?thesis by (rule verifyIntegrity_mismatch)
qed

lemma toString10_digit: "n < 10 \<Longrightarrow> toString10 n = [digit36 n]"
  by (subst toString10.simps) simp

lemma generateHash_7:
  "generateHash (payloadBuiltins known) (Score 7) = Some (js ''1j'')"
  by (simp add: payloadBuiltins_def payloadText_def generateHash_def hashLoop_def hashStep_def
      toString36_def toBase36.simps toString10_digit digit36_def js_def)

lemma generateHash_6:
  "generateHash (payloadBuiltins known) (Score 6) = Some (js ''1i'')"
  by (simp add: payloadBuiltins_def payloadText_def generateHash_def hashLoop_def hashStep_def
      toString36_def toBase36.simps toString10_digit digit36_def js_def)

lemma hashLoop_null: "hashLoop (js ''null'') = 3392903"
  by (simp add: hashLoop_def hashStep_def js_def)

lemma toBase36_3392903: "toBase36 3392903 = js ''20pzb''"
  by (simp add: toBase36.simps digit36_def js_def)

lemma generateHash_null:
  "generateHash (payloadBuiltins known) NaN = Some (js ''20pzb'')"
  "generateHash (payloadBuiltins known) Null = Some (js ''20pzb'')"
  by (simp_all add: payloadBuiltins_def payloadText_def generateHash_def hashLoop_null
      toString36_def toBase36_3392903)

lemma payloadBuiltins_parse_single:
  "parseEnvelope (payloadBuiltins [e]) s
     = (if envelopeText e = s \<and> data e \<noteq> NaN then Some e else None)"
  by (simp add: payloadBuiltins_def)

lemma payloadBuiltins_stringify:
  "stringifyEnvelope (payloadBuiltins known) e = Some (envelopeText e)"
  by (simp add: payloadBuiltins_def)

lemma payloadBuiltins_stringifyData:
  "stringifyData (payloadBuiltins known) p = Some (payloadText p)"
  by (simp add: payloadBuiltins_def)

lemma payloadBuiltins_ok:
  "setItemOk (payloadBuiltins known) s" "emitOk (payloadBuiltins known) ev"
  by (simp_all add: payloadBuiltins_def)

lemma envelopeText_nonempty: "envelopeText e \<noteq> []"
  by (simp add: envelopeText_def js_def)

lemma envelopeText_NaN:
  "envelopeText \<lparr>version = v, timestamp = t, data = NaN, hash = h\<rparr>
     = envelopeText \<lparr>version = v, timestamp = t, data = Null, hash = h\<rparr>"
  by (simp add: envelopeText_def payloadText_def)

lemma save_7:
  "save (payloadBuiltins known) False 0 (Score 7) None
     = (True, Some (envelopeText savedEnvelope))"
  by (simp add: save_def generateHash_7 payloadBuiltins_stringify payloadBuiltins_ok
      savedEnvelope_def getVersion_def)

text \<open>
  C8, as stated, fails: not every value comes back. \<^verbatim>\<open>save(NaN)\<close> succeeds;
  \<^verbatim>\<open>JSON.stringify\<close> writes \<^verbatim>\<open>NaN\<close> as \<^verbatim>\<open>null\<close>, in the text that is hashed
  and in the envelope. Nothing corrupts the stored text, \<^verbatim>\<open>load()\<close> parses
  it, finds the hash of \<^verbatim>\<open>null\<close> equal to the stored one and returns the
  data \<^verbatim>\<open>null\<close>, which is not the value \<^verbatim>\<open>NaN\<close> that was saved.
\<close>

theorem load_after_save_NaN:
  "save (payloadBuiltins [nullEnvelope]) False 0 NaN None
     = (True, Some (envelopeText nullEnvelope))
   \<and> load (payloadBuiltins [nullEnvelope]) False (Some (envelopeText nullEnvelope)) = Some Null
   \<and> Some Null \<noteq> Some NaN"
proof -
  let ?env = "payloadBuiltins [nullEnvelope]"
  have sv: "save ?env False 0 NaN None = (True, Some (envelopeText nullEnvelope))"
    by (simp add: save_def generateHash_null payloadBuiltins_stringify payloadBuiltins_ok
        envelopeText_NaN nullEnvelope_def getVersion_def)
  have p: "parseEnvelope ?env (envelopeText nullEnvelope) = Some nullEnvelope"
    by (simp add: payloadBuiltins_parse_single nullEnvelope_def)
  have v: "verifyIntegrity ?env nullEnvelope = Some True"
    by (simp add: nullEnvelope_def verifyIntegrity_fresh generateHash_null)
  have "load ?env False (Some (envelopeText nullEnvelope)) = Some (data nullEnvelope)"
    using envelopeText_nonempty p v by (intro load_accepted) (simp_all add: payloadBuiltins_ok)
  then have ld: "load ?env False (Some (envelopeText nullEnvelope)) = Some Null"
    by (simp add: nullEnvelope_def)
  from sv ld show ?thesis by simp
qed

text \<open>
  C8, amended. If \<^verbatim>\<open>save(X)\<close> succeeds and \<open>X\<close> is a value that the
  serialization gives back, that is, the stored text is read back as the
  envelope that was written (\<^verbatim>\<open>JSON.parse\<close> inverts \<^verbatim>\<open>JSON.stringify\<close> on it
  and, with compression, \<^verbatim>\<open>atob\<close> inverts \<^verbatim>\<open>btoa\<close>), then \<^verbatim>\<open>load()\<close> returns
  \<open>X\<close>, provided no listener of the load event throws. If the stored text
  parses to an envelope whose non-empty hash differs from the recomputed one
  (or the recomputation throws), does not parse at all, or cannot be decoded,
  \<^verbatim>\<open>load()\<close> returns \<^verbatim>\<open>null\<close>; the hash does differ whenever the text of the
  data differs in one character (so also in one bit) from the text that was
  hashed. No case of \<open>load\<close> is left to an exception: each one of the
  \<^verbatim>\<open>try\<close> block is a branch with result \<^verbatim>\<open>null\<close>.
\<close>

theorem load_after_save:
  "(save env uc now X storage = (True, storage')
      \<and> (\<forall>s. stringifyEnvelope env
               \<lparr>version = getVersion, timestamp = now, data = X, hash = generateHash env X\<rparr> = Some s
             \<longrightarrow> s \<noteq> [] \<and> parseEnvelope env s =
                   Some \<lparr>version = getVersion, timestamp = now, data = X, hash = generateHash env X\<rparr>)
      \<and> (uc \<longrightarrow> (\<forall>s b. btoa env s = Some b \<longrightarrow> atob env b = Some s \<and> (s \<noteq> [] \<longrightarrow> b \<noteq> [])))
      \<and> emitOk env LOAD_GAME
    \<longrightarrow> load env uc storage' = Some X)
   \<and> ((if uc then atob env stored else Some stored) = Some ser
        \<and> parseEnvelope env ser = Some sd
        \<and> hash sd = Some h \<and> h \<noteq> [] \<and> generateHash env (data sd) \<noteq> Some h
      \<longrightarrow> load env uc (Some stored) = None)
   \<and> ((if uc then atob env stored else Some stored) = Some ser
        \<and> parseEnvelope env ser = Some sd
        \<and> hash sd = generateHash env Y
        \<and> stringifyData env Y = Some (xs @ c # ys)
        \<and> stringifyData env (data sd) = Some (xs @ c' # ys) \<and> c \<noteq> c'
      \<longrightarrow> load env uc (Some stored) = None)
   \<and> ((if uc then atob env stored else Some stored) = Some ser
        \<and> parseEnvelope env ser = None
      \<longrightarrow> load env uc (Some stored) = None)
   \<and> ((if uc then atob env stored else Some stored) = None
      \<longrightarrow> load env uc (Some stored) = None)
   \<and> load env uc None = None"
proof (intro conjI impI)
  assume a: "save env uc now X storage = (True, storage')
      \<and> (\<forall>s. stringifyEnvelope env
               \<lparr>version = getVersion, timestamp = now, data = X, hash = generateHash env X\<rparr> = Some s
             \<longrightarrow> s \<noteq> [] \<and> parseEnvelope env s =
                   Some \<lparr>version = getVersion, timestamp = now, data = X, hash = generateHash env X\<rparr>)
      \<and> (uc \<longrightarrow> (\<forall>s b. btoa env s = Some b \<longrightarrow> atob env b = Some s \<and> (s \<noteq> [] \<longrightarrow> b \<noteq> [])))
      \<and> emitOk env LOAD_GAME"
  let ?e = "\<lambda>h. \<lparr>version = getVersion, timestamp = now, data = X, hash = h\<rparr>"
  from a obtain h where h: "generateHash env X = Some h"
    by (auto simp: save_def split: option.splits)
  from a h obtain s where s: "stringifyEnvelope env (?e (Some h)) = Some s"
    by (auto simp: save_def Let_def split: option.splits)
  from a h s have s_ne: "s \<noteq> []" and parse: "parseEnvelope env s = Some (?e (Some h))"
    by auto
  from a h s have "\<exists>stored. storage' = Some stored
      \<and> (if uc then btoa env s else Some s) = Some stored"
    by (cases uc; cases "btoa env s") (auto simp: save_def Let_def split: if_splits)
  then obtain stored where stored: "storage' = Some stored"
      and enc: "(if uc then btoa env s else Some s) = Some stored"
    by blast
  have dec: "(if uc then atob env stored else Some stored) = Some s"
    using a enc by (auto split: if_splits)
  have ne: "stored \<noteq> []"
    using a enc s_ne by (auto split: if_splits)
  have "verifyIntegrity env (?e (Some h)) = Some True"
    using h by (rule verifyIntegrity_fresh)
  moreover from a have "emitOk env LOAD_GAME" by simp
  ultimately have "load env uc (Some stored) = Some (data (?e (Some h)))"
    using ne dec parse by (simp add: load_accepted)
  with stored show "load env uc storage' = Some X" by simp
next
  assume b: "(if uc then atob env stored else Some stored) = Some ser
        \<and> parseEnvelope env ser = Some sd
        \<and> hash sd = Some h \<and> h \<noteq> [] \<and> generateHash env (data sd) \<noteq> Some h"
  then have dec: "(if uc then atob env stored else Some stored) = Some ser"
    and parse: "parseEnvelope env ser = Some sd"
    and h1: "hash sd = Some h" and h2: "h \<noteq> []"
    and h3: "generateHash env (data sd) \<noteq> Some h"
    by simp_all
  from h1 h2 h3 have "verifyIntegrity env sd \<noteq> Some True"
    by (rule verifyIntegrity_mismatch)
  with dec parse show "load env uc (Some stored) = None"
    by (rule load_rejected)
next
  assume c: "(if uc then atob env stored else Some stored) = Some ser
        \<and> parseEnvelope env ser = Some sd
        \<and> hash sd = generateHash env Y
        \<and> stringifyData env Y = Some (xs @ c # ys)
        \<and> stringifyData env (data sd) = Some (xs @ c' # ys) \<and> c \<noteq> c'"
  then have dec: "(if uc then atob env stored else Some stored) = Some ser"
    and parse: "parseEnvelope env ser = Some sd"
    and h: "hash sd = generateHash env Y"
    and t1: "stringifyData env Y = Some (xs @ c # ys)"
    and t2: "stringifyData env (data sd) = Some (xs @ c' # ys)"
    and ne: "c \<noteq> c'"
    by simp_all
  from t1 t2 ne h have "verifyIntegrity env sd \<noteq> Some True"
    by (rule verifyIntegrity_single_char)
  with dec parse show "load env uc (Some stored) = None"
    by (rule load_rejected)
next
  assume "(if uc then atob env stored else Some stored) = Some ser
        \<and> parseEnvelope env ser = None"
  then show "load env uc (Some stored) = None"
    by (simp add: load_def)
next
  assume "(if uc then atob env stored else Some stored) = None"
  then show "load env uc (Some stored) = None"
    by (simp add: load_def)
next
  show "load env uc None = None"
    by (simp add: load_def)
qed

theorem load_after_save_witness:
  "save (payloadBuiltins [savedEnvelope]) False 0 (Score 7) None
     = (True, Some (envelopeText savedEnvelope))
   \<and> load (payloadBuiltins [savedEnvelope]) False (Some (envelopeText savedEnvelope))
       = Some (Score 7)
   \<and> generateHash (payloadBuiltins [tamperedEnvelope]) (data tamperedEnvelope)
       \<noteq> hash tamperedEnvelope
   \<and> stringifyData (payloadBuiltins [tamperedEnvelope]) (Score 7) = Some ([] @ 0x37 # [])
   \<and> stringifyData (payloadBuiltins [tamperedEnvelope]) (data tamperedEnvelope)
       = Some ([] @ 0x36 # [])
   \<and> load (payloadBuiltins [tamperedEnvelope]) False (Some (envelopeText tamperedEnvelope))
       = None
   \<and> parseEnvelope (payloadBuiltins [savedEnvelope]) (js ''{garbage'') = None
   \<and> load (payloadBuiltins [savedEnvelope]) False (Some (js ''{garbage'')) = None
   \<and> atob (payloadBuiltins [savedEnvelope]) (js ''{garbage'') = None
   \<and> load (payloadBuiltins [savedEnvelope]) True (Some (js ''{garbage'')) = None
   \<and> load (payloadBuiltins [savedEnvelope]) False None = None"
proof -
  let ?env = "payloadBuiltins [savedEnvelope]"
  let ?bad = "payloadBuiltins [tamperedEnvelope]"
  have sv: "save ?env False 0 (Score 7) None = (True, Some (envelopeText savedEnvelope))"
    by (rule save_7)
  have e: "\<lparr>version = getVersion, timestamp = 0, data = Score 7,
            hash = generateHash ?env (Score 7)\<rparr> = savedEnvelope"
    by (simp add: generateHash_7 savedEnvelope_def getVersion_def)
  have inv: "\<forall>s. stringifyEnvelope ?env
               \<lparr>version = getVersion, timestamp = 0, data = Score 7,
                hash = generateHash ?env (Score 7)\<rparr> = Some s
             \<longrightarrow> s \<noteq> [] \<and> parseEnvelope ?env s =
                   Some \<lparr>version = getVersion, timestamp = 0, data = Score 7,
                         hash = generateHash ?env (Score 7)\<rparr>"
    unfolding e
    by (auto simp: payloadBuiltins_stringify payloadBuiltins_parse_single envelopeText_nonempty
        savedEnvelope_def)
  have ok: "emitOk ?env LOAD_GAME" by (rule payloadBuiltins_ok)
  have r1: "load ?env False (Some (envelopeText savedEnvelope)) = Some (Score 7)"
    using load_after_save [where env = ?env and uc = False and now = 0 and X = "Score 7"
        and storage = None and storage' = "Some (envelopeText savedEnvelope)"] sv inv ok
    by simp
  have d2: "data tamperedEnvelope = Score 6"
    by (simp add: tamperedEnvelope_def)
  have p2: "parseEnvelope ?bad (envelopeText tamperedEnvelope) = Some tamperedEnvelope"
    by (simp add: payloadBuiltins_parse_single d2)
  have h2: "hash tamperedEnvelope = Some (js ''1j'')"
    by (simp add: tamperedEnvelope_def savedEnvelope_def)
  have ne: "js ''1i'' \<noteq> js ''1j''" "js ''1j'' \<noteq> []"
    by (simp_all add: js_def)
  have g2: "generateHash ?bad (data tamperedEnvelope) \<noteq> Some (js ''1j'')"
    by (simp add: generateHash_6 d2 ne)
  have r2: "load ?bad False (Some (envelopeText tamperedEnvelope)) = None"
    using load_after_save [where env = ?bad and uc = False
        and stored = "envelopeText tamperedEnvelope" and ser = "envelopeText tamperedEnvelope"
        and sd = tamperedEnvelope and h = "js ''1j''"] p2 h2 g2 ne
    by simp
  have t7: "stringifyData ?bad (Score 7) = Some ([] @ 0x37 # [])"
    by (simp add: payloadBuiltins_stringifyData payloadText_def toString10_digit digit36_def
        js_def)
  have t6: "stringifyData ?bad (data tamperedEnvelope) = Some ([] @ 0x36 # [])"
    by (simp add: payloadBuiltins_stringifyData payloadText_def toString10_digit digit36_def
        js_def d2)
  have hy: "hash tamperedEnvelope = generateHash ?bad (Score 7)"
    by (simp add: h2 generateHash_7)
  have r2': "load ?bad False (Some (envelopeText tamperedEnvelope)) = None"
    using load_after_save [where env = ?bad and uc = False
        and stored = "envelopeText tamperedEnvelope" and ser = "envelopeText tamperedEnvelope"
        and sd = tamperedEnvelope and Y = "Score 7" and xs = "[]" and ys = "[]"
        and c = "0x37" and c' = "0x36"] p2 hy t7 t6
    by simp
  have p3: "parseEnvelope ?env (js ''{garbage'') = None"
    by (simp add: payloadBuiltins_parse_single envelopeText_def quoted_def js_def)
  have r3: "load ?env False (Some (js ''{garbage'')) = None"
    using load_after_save [where env = ?env and uc = False
        and stored = "js ''{garbage''" and ser = "js ''{garbage''"] p3
    by simp
  have p4: "atob ?env (js ''{garbage'') = None"
    by (simp add: payloadBuiltins_def)
  have r4: "load ?env True (Some (js ''{garbage'')) = None"
    using load_after_save [where env = ?env and uc = True and stored = "js ''{garbage''"] p4
    by simp
  have r5: "load ?env False None = None"
    using load_after_save [where env = ?env and uc = False] by simp
  from sv r1 g2 h2 t7 t6 r2' p3 r3 p4 r4 r5 show ?thesis by simp
qed

text \<open>
  C10. If the stored text parses to an envelope whose hash is missing or the
  empty string, \<^verbatim>\<open>verifyIntegrity\<close> answers \<^verbatim>\<open>true\<close> without recomputing
  anything, and \<^verbatim>\<open>load()\<close> returns the data of the envelope, whatever they are
  (provided no listener of the load event throws).
\<close>

theorem load_accepts_envelope_without_hash:
  "stored \<noteq> [] \<Longrightarrow>
   (if uc then atob env stored else Some stored) = Some ser \<Longrightarrow>
   parseEnvelope env ser = Some sd \<Longrightarrow>
   hash sd = None \<or> hash sd = Some [] \<Longrightarrow>
   emitOk env LOAD_GAME \<Longrightarrow>
   verifyIntegrity env sd = Some True \<and> load env uc (Some stored) = Some (data sd)"
  by (simp add: verifyIntegrity_no_hash load_accepted)

theorem load_accepts_envelope_without_hash_witness:
  "envelopeText strippedEnvelope \<noteq> []
   \<and> parseEnvelope (payloadBuiltins [strippedEnvelope]) (envelopeText strippedEnvelope)
       = Some strippedEnvelope
   \<and> hash strippedEnvelope = None
   \<and> data strippedEnvelope = Score 6
   \<and> load (payloadBuiltins [strippedEnvelope]) False (Some (envelopeText strippedEnvelope))
       = Some (Score 6)"
proof -
  let ?env = "payloadBuiltins [strippedEnvelope]"
  have ne: "envelopeText strippedEnvelope \<noteq> []" by (rule envelopeText_nonempty)
  have dec: "(if False then atob ?env (envelopeText strippedEnvelope)
              else Some (envelopeText strippedEnvelope)) = Some (envelopeText strippedEnvelope)"
    by simp
  have d: "data strippedEnvelope = Score 6"
    by (simp add: strippedEnvelope_def tamperedEnvelope_def)
  have p: "parseEnvelope ?env (envelopeText strippedEnvelope) = Some strippedEnvelope"
    by (simp add: payloadBuiltins_parse_single d)
  have h: "hash strippedEnvelope = None \<or> hash strippedEnvelope = Some []"
    by (simp add: strippedEnvelope_def)
  have ok: "emitOk ?env LOAD_GAME" by (rule payloadBuiltins_ok)
  have hn: "hash strippedEnvelope = None"
    by (simp add: strippedEnvelope_def)
  from load_accepts_envelope_without_hash [OF ne dec p h ok] ne p hn d show ?thesis
    by simp
qed

section \<open>Properties of the double-click detector\<close>

lemma doubleClick_Suc:
  "doubleClick w (Suc n) evs =
     doubleClick w n evs
     @ (if length (buffered w n evs) = 2 then [((n + 1) * w, buffered w n evs ! 1)] else [])"
  by (simp add: doubleClick_def bufferTime_def)

lemma doubleClick_at:
  "0 < w \<Longrightarrow>
   filter (\<lambda>(t, v). t = (k + 1) * w) (doubleClick w n evs) =
     (if k < n \<and> length (buffered w k evs) = 2
      then [((k + 1) * w, buffered w k evs ! 1)] else [])"
proof (induction n)
  case 0
  then show ?case by (simp add: doubleClick_def bufferTime_def)
next
  case (Suc n)
  then show ?case
    by (cases "k = n") (auto simp: doubleClick_Suc less_Suc_eq)
qed

lemma doubleClick_times:
  "(t, v) \<in> set (doubleClick w n evs) \<Longrightarrow> \<exists>j<n. t = (j + 1) * w"
proof (induction n)
  case 0
  then show ?case by (simp add: doubleClick_def bufferTime_def)
next
  case (Suc n)
  then show ?case
    by (auto simp: doubleClick_Suc less_Suc_eq split: if_splits)
qed

text \<open>
  What the detector does: time is cut into consecutive windows of the
  configured length, counted from the subscription. At the end of a window
  that received exactly two events it emits the second of them; at the end of
  any other window it emits nothing. It emits at no other time.
\<close>

lemma doubleClick_per_window:
  "0 < w \<Longrightarrow> k < n \<Longrightarrow>
     (length (buffered w k evs) = 2 \<longrightarrow>
        filter (\<lambda>(t, v). t = (k + 1) * w) (doubleClick w n evs)
          = [((k + 1) * w, buffered w k evs ! 1)])
   \<and> (length (buffered w k evs) \<noteq> 2 \<longrightarrow>
        filter (\<lambda>(t, v). t = (k + 1) * w) (doubleClick w n evs) = [])
   \<and> (\<forall>(t, v) \<in> set (doubleClick w n evs). \<exists>j<n. t = (j + 1) * w)"
proof (intro conjI impI)
  assume w: "0 < w" and k: "k < n"
  {
    assume "length (buffered w k evs) = 2"
    with k doubleClick_at [OF w, of k n evs]
    show "filter (\<lambda>(t, v). t = (k + 1) * w) (doubleClick w n evs)
          = [((k + 1) * w, buffered w k evs ! 1)]"
      by simp
  next
    assume "length (buffered w k evs) \<noteq> 2"
    with doubleClick_at [OF w, of k n evs]
    show "filter (\<lambda>(t, v). t = (k + 1) * w) (doubleClick w n evs) = []"
      by simp
  next
    show "\<forall>(t, v) \<in> set (doubleClick w n evs). \<exists>j<n. t = (j + 1) * w"
      using doubleClick_times [of _ _ w n evs] by blast
  }
qed

text \<open>
  C9. Two events on the channel that are 200 ms apart (at 200 and 400 ms
  after subscription), or only 2 ms apart (at 299 and 301 ms), so well inside
  the window of 300 ms, give no derived event: they fall on the two sides of
  a buffer boundary. Three events inside one buffer give no derived event at
  all, in place of the one that the first two announce. A stream without any gap of 300 ms gives a derived event
  in each of two consecutive buffers: the window restarts every 300 ms, gap or
  no gap.
\<close>

theorem doubleClick_fixed_windows:
  "doubleClick 300 3 [(200, ''first''), (400, ''second'')] = []
   \<and> doubleClick 300 3 [(299, ''first''), (301, ''second'')] = []
   \<and> doubleClick 300 3 [(10, ''first''), (20, ''second''), (30, ''third'')] = []
   \<and> doubleClick 300 3 [(100, ''a''), (200, ''b''), (400, ''c''), (500, ''d'')]
       = [(300, ''b''), (600, ''d'')]"
  by code_simp

section \<open>Properties of the gesture manager\<close>

lemma getDistance_gt_iff:
  "0 \<le> r \<Longrightarrow>
   r < getDistance p q \<longleftrightarrow>
     r * r < (tp_x q - tp_x p) * (tp_x q - tp_x p) + (tp_y q - tp_y p) * (tp_y q - tp_y p)"
proof -
  assume r: "0 \<le> r"
  let ?u = "(tp_x q - tp_x p) * (tp_x q - tp_x p) + (tp_y q - tp_y p) * (tp_y q - tp_y p)"
  from r have "r = sqrt (r * r)" by simp
  then have "r < sqrt ?u \<longleftrightarrow> sqrt (r * r) < sqrt ?u" by simp
  also have "\<dots> \<longleftrightarrow> r * r < ?u" by (rule real_sqrt_less_iff)
  finally show ?thesis by (simp add: getDistance_def Let_def)
qed

lemma getDistance_lt_iff:
  "0 < r \<Longrightarrow>
   getDistance p q < r \<longleftrightarrow>
     (tp_x q - tp_x p) * (tp_x q - tp_x p) + (tp_y q - tp_y p) * (tp_y q - tp_y p) < r * r"
proof -
  assume r: "0 < r"
  let ?u = "(tp_x q - tp_x p) * (tp_x q - tp_x p) + (tp_y q - tp_y p) * (tp_y q - tp_y p)"
  from r have "r = sqrt (r * r)" by simp
  then have "sqrt ?u < r \<longleftrightarrow> sqrt ?u < sqrt (r * r)" by simp
  also have "\<dots> \<longleftrightarrow> ?u < r * r" by (rule real_sqrt_less_iff)
  finally show ?thesis by (simp add: getDistance_def Let_def)
qed

subsection \<open>Long press\<close>

lemma longPress_quiet:
  assumes "\<forall>e \<in> set pre. timeStamp e < due \<and> (\<forall>t b. e \<noteq> TouchStart t [b])"
    and "p = None \<or> p = Some (due, sp)"
  shows "\<exists>p'. (p' = None \<or> p' = Some (due, sp))
     \<and> longPress rect p (pre @ rest) = longPress rect p' rest"
  using assms
proof (induction pre arbitrary: p)
  case Nil
  then show ?case by auto
next
  case (Cons e pre)
  from Cons.prems have te: "timeStamp e < due" and ns: "\<forall>t b. e \<noteq> TouchStart t [b]"
    by auto
  from Cons.prems(2) te have fire: "fireTimer p (timeStamp e) = ([], p)"
    by (auto simp: fireTimer_def)
  have next_state: "longPressEvent rect e p = None \<or> longPressEvent rect e p = Some (due, sp)"
  proof (cases e)
    case (TouchStart t ts)
    with ns have "\<forall>b. ts \<noteq> [b]" by auto
    with TouchStart Cons.prems(2) show ?thesis
      by (cases ts; cases "tl ts") auto
  next
    case (TouchMove t m ts)
    with Cons.prems(2) show ?thesis
      by (cases "getDistance sp (getTouchPoint rect t m) > 10") auto
  next
    case (TouchEnd t c ts)
    then show ?thesis by simp
  qed
  from Cons.prems(1) have "\<forall>e \<in> set pre. timeStamp e < due \<and> (\<forall>t b. e \<noteq> TouchStart t [b])"
    by simp
  from Cons.IH [OF this next_state] fire show ?case by simp
qed

text \<open>
  C7. A finger goes down alone at time \<open>T\<close>. If, before \<open>T + 500\<close>, the
  finger is lifted or moves more than 10 px from its start, with no new single
  touch start in between, the timer of the contact is dropped: no long press
  is delivered for it, and what the recognizer delivers afterwards is what it
  delivers for the later events alone, from the state without a timer.
\<close>

theorem long_press_cancelled:
  assumes "\<forall>e \<in> set (pre @ [d]). timeStamp e < T + 500 \<and> (\<forall>t b. e \<noteq> TouchStart t [b])"
    and "(\<exists>t c ts. d = TouchEnd t c ts)
       \<or> (\<exists>t m ts. d = TouchMove t m ts
            \<and> getDistance (getTouchPoint rect T a) (getTouchPoint rect t m) > 10)"
  shows "longPress rect None (TouchStart T [a] # pre @ d # post) = longPress rect None post"
proof -
  let ?sp = "getTouchPoint rect T a"
  let ?due = "T + 500"
  have start: "longPress rect None (TouchStart T [a] # pre @ d # post)
      = longPress rect (Some (?due, ?sp)) (pre @ d # post)"
    by (simp add: fireTimer_def longPressDelay_def)
  from assms(1) have quiet: "\<forall>e \<in> set pre. timeStamp e < ?due \<and> (\<forall>t b. e \<noteq> TouchStart t [b])"
    by simp
  from longPress_quiet [OF quiet, of "Some (?due, ?sp)" ?sp rect "d # post"]
  obtain p' where p': "p' = None \<or> p' = Some (?due, ?sp)"
    and run: "longPress rect (Some (?due, ?sp)) (pre @ d # post) = longPress rect p' (d # post)"
    by auto
  from assms(1) have td: "timeStamp d < ?due" by simp
  from p' td have fire: "fireTimer p' (timeStamp d) = ([], p')"
    by (auto simp: fireTimer_def)
  from assms(2) p' have "longPressEvent rect d p' = None"
    by auto
  with fire have "longPress rect p' (d # post) = longPress rect None post" by simp
  with start run show ?thesis by simp
qed

theorem long_press_cancelled_witness:
  "timeStamp (TouchMove 100 (fingerAt 103 100) []) < 0 + 500
   \<and> timeStamp (TouchEnd 200 finger []) < 0 + 500
   \<and> longPress origin None
        (TouchStart 0 [finger] # [TouchMove 100 (fingerAt 103 100) []] @ TouchEnd 200 finger [] # [])
       = []
   \<and> getDistance (getTouchPoint origin 0 finger) (getTouchPoint origin 100 (fingerAt 100 120)) > 10
   \<and> longPress origin None
        (TouchStart 0 [finger] # [] @ TouchMove 100 (fingerAt 100 120) [] # [])
       = []
   \<and> longPress origin None [TouchStart 0 [finger]] = [(500, getTouchPoint origin 0 finger)]"
proof -
  have h1: "\<forall>e \<in> set ([TouchMove 100 (fingerAt 103 100) []] @ [TouchEnd 200 finger []]).
       timeStamp e < 0 + 500 \<and> (\<forall>t b. e \<noteq> TouchStart t [b])"
    by simp
  have d1: "(\<exists>t c ts. TouchEnd 200 finger [] = TouchEnd t c ts)
       \<or> (\<exists>t m ts. TouchEnd 200 finger [] = TouchMove t m ts
            \<and> getDistance (getTouchPoint origin 0 finger) (getTouchPoint origin t m) > 10)"
    by simp
  have far: "getDistance (getTouchPoint origin 0 finger) (getTouchPoint origin 100 (fingerAt 100 120)) > 10"
    by (simp add: getDistance_gt_iff getTouchPoint_def origin_def finger_def fingerAt_def)
  have h2: "\<forall>e \<in> set ([] @ [TouchMove 100 (fingerAt 100 120) []]).
       timeStamp e < 0 + 500 \<and> (\<forall>t b. e \<noteq> TouchStart t [b])"
    by simp
  have d2: "(\<exists>t c ts. TouchMove 100 (fingerAt 100 120) [] = TouchEnd t c ts)
       \<or> (\<exists>t m ts. TouchMove 100 (fingerAt 100 120) [] = TouchMove t m ts
            \<and> getDistance (getTouchPoint origin 0 finger) (getTouchPoint origin t m) > 10)"
    using far by simp
  have hold: "longPress origin None [TouchStart 0 [finger]] = [(500, getTouchPoint origin 0 finger)]"
    by (simp add: fireTimer_def longPressDelay_def)
  from long_press_cancelled [OF h1 d1, of "[]"] long_press_cancelled [OF h2 d2, of "[]"]
    far hold
  show ?thesis by simp
qed

subsection \<open>Tap and double tap\<close>

lemma tapStream_quickTap2:
  "t1 < t0 + 300 \<Longrightarrow> t3 < t2 + 300 \<Longrightarrow>
   tapStream origin None (quickTap t0 t1 @ quickTap t2 t3) =
     [(t1, \<lparr>startStamp = t0, endStamp = t1, touch = getTouchPoint origin t1 finger\<rparr>),
      (t3, \<lparr>startStamp = t2, endStamp = t3, touch = getTouchPoint origin t3 finger\<rparr>)]"
  by (simp add: quickTap_def tapTimeout_def getDistance_def getTouchPoint_def)

lemma getDistance_same_place [simp]:
  "getDistance (getTouchPoint rect t a) (getTouchPoint rect t' a) = 0"
  by (simp add: getDistance_def getTouchPoint_def)

text \<open>A single quick tap gives one tap, 300 ms after the finger is lifted.\<close>

lemma single_quick_tap:
  "tapGestures origin (quickTap 10 60) = [Tap 360 (getTouchPoint origin 60 finger) 50]
   \<and> doubleTapGestures origin 2 (quickTap 10 60) = []
   \<and> longPressGestures origin (quickTap 10 60) = []"
proof -
  have u2: "[0..<2] = [0, 1]" by code_simp
  show ?thesis
    by (simp add: tapGestures_def doubleTapGestures_def longPressGestures_def doubleTap_def
        quickTap_def tapTimeout_def doubleTapInterval_def longPressDelay_def fireTimer_def
        bufferTime_def buffered_def u2)
qed

text \<open>
  C4. Two contacts of 50 ms each without any movement, 100 ms apart at the
  same place. When both taps fall into one buffer window, the recognizer
  delivers the double tap at the end of the window and, 300 ms after the
  second tap, a tap as well: two events for the pair, a double tap and a tap.
  When the two taps fall on the two sides of a window boundary, no double tap
  is delivered at all, only one tap.
\<close>

theorem double_tap_pair_emits_tap_too:
  "doubleTapGestures origin 2 (quickTap 10 60 @ quickTap 110 160)
     = [DoubleTap 300 (getTouchPoint origin 160 finger) 100]
   \<and> tapGestures origin (quickTap 10 60 @ quickTap 110 160)
     = [Tap 460 (getTouchPoint origin 160 finger) 50]
   \<and> doubleTapGestures origin 3 (quickTap 200 250 @ quickTap 310 360) = []
   \<and> tapGestures origin (quickTap 200 250 @ quickTap 310 360)
     = [Tap 660 (getTouchPoint origin 360 finger) 50]"
proof -
  have u2: "[0..<2] = [0, 1]" and u3: "[0..<3] = [0, 1, 2]"
    by code_simp+
  have b0: "bufferTime 300 2
      [(60::nat, \<lparr>startStamp = 10, endStamp = 60, touch = getTouchPoint origin 60 finger\<rparr>),
       (160, \<lparr>startStamp = 110, endStamp = 160, touch = getTouchPoint origin 160 finger\<rparr>)]
    = [(300, [\<lparr>startStamp = 10, endStamp = 60, touch = getTouchPoint origin 60 finger\<rparr>,
              \<lparr>startStamp = 110, endStamp = 160, touch = getTouchPoint origin 160 finger\<rparr>]),
       (600, [])]"
    by (simp add: bufferTime_def buffered_def u2)
  have b1: "bufferTime 300 3
      [(250::nat, \<lparr>startStamp = 200, endStamp = 250, touch = getTouchPoint origin 250 finger\<rparr>),
       (360, \<lparr>startStamp = 310, endStamp = 360, touch = getTouchPoint origin 360 finger\<rparr>)]
    = [(300, [\<lparr>startStamp = 200, endStamp = 250, touch = getTouchPoint origin 250 finger\<rparr>]),
       (600, [\<lparr>startStamp = 310, endStamp = 360, touch = getTouchPoint origin 360 finger\<rparr>]),
       (900, [])]"
    by (simp add: bufferTime_def buffered_def u3)
  show ?thesis
    by (simp add: doubleTapGestures_def tapGestures_def doubleTap_def tapStream_quickTap2
        doubleTapInterval_def b0 b1)
qed

end
